theory Spec2Isabelle
  imports Main "HOL-Library.Sublist"
begin

section \<open>Data model (models/Chat.js, models/Notification.js, models/User.js)\<close>

text \<open>
  An ObjectId is compared by value everywhere in the controllers (through \<open>toString()\<close>
  or the array methods of Mongoose), so it is a natural number here. A \<open>Date\<close> is its
  number of milliseconds. A string that may be absent (\<open>undefined\<close>) and is only tested
  for truthiness is the empty string when absent. Strings are ASCII: what
  \<open>toLowerCase\<close> and \<open>trim\<close> do to characters beyond ASCII is not modelled.
\<close>

type_synonym oid = nat
type_synonym time = int

datatype error = BadRequest | Forbidden | NotFound | ServerError

record attachment =
  fileName :: string
  fileType :: string
  fileUrl :: string
  fileSize :: int

record reaction =
  reaction_user :: oid
  reaction_emoji :: string

text \<open>
  The sub-schemas of \<open>readBy\<close> and \<open>deliveredTo\<close> have the fields \<open>user\<close> and
  \<open>readAt\<close> (\<open>deliveredAt\<close>). An entry written without a \<open>user\<close> field has
  \<open>read_user = None\<close>: reading \<open>entry.user\<close> gives \<open>undefined\<close>.
\<close>

record read_entry =
  read_user :: "oid option"
  readAt :: time

record delivered_entry =
  delivered_user :: "oid option"
  deliveredAt :: time

record edit_entry =
  edit_content :: string
  editedAt :: time

record message =
  msg_id :: oid
  sender :: oid
  content :: string
  attachments :: "attachment list"
  reactions :: "reaction list"
  readBy :: "read_entry list"
  deliveredTo :: "delivered_entry list"
  isDeleted :: bool
  deletedFor :: "oid list"
  replyTo :: "oid option"
  edited :: bool
  editHistory :: "edit_entry list"
  createdAt :: time

datatype chat_kind = Direct | Group

record unread_entry =
  unread_user :: oid
  unread_count :: int

text \<open>
  The display fields of a chat (participantDetails, description, avatar, lastMessage)
  are set at creation and read by no operation below; they are left out.
\<close>

record chat =
  chat_id :: oid
  kind :: chat_kind
  participants :: "oid list"
  messages :: "message list"
  chat_name :: string
  admins :: "oid list"
  unreadCounts :: "unread_entry list"

record user =
  user_id :: oid
  company :: "oid option"

record notification =
  notif_user :: oid
  notif_type :: string
  notif_title :: string
  notif_message :: string
  notif_read :: bool

section \<open>JavaScript and Mongoose primitives\<close>

text \<open>\<open>Array.prototype.slice(start, stop)\<close>: a negative index counts from the end,
  both are clamped to the array.\<close>

definition js_slice :: "'a list \<Rightarrow> int \<Rightarrow> int \<Rightarrow> 'a list" where
  "js_slice xs start stop =
     (let len = int (length xs);
          k = (if start < 0 then max (len + start) 0 else min start len);
          fin = (if stop < 0 then max (len + stop) 0 else min stop len)
      in take (nat (fin - k)) (drop (nat k) xs))"

text \<open>\<open>String.prototype.toLowerCase\<close> on ASCII letters (the letters beyond ASCII
  that JavaScript lowers too are outside the model), and \<open>String.prototype.includes\<close>.\<close>

definition lower_char :: "char \<Rightarrow> char" where
  "lower_char c =
     (case map_of (zip ''ABCDEFGHIJKLMNOPQRSTUVWXYZ'' ''abcdefghijklmnopqrstuvwxyz'') c of
        Some d \<Rightarrow> d
      | None \<Rightarrow> c)"

definition toLowerCase :: "string \<Rightarrow> string" where
  "toLowerCase s = map lower_char s"

fun js_includes :: "string \<Rightarrow> string \<Rightarrow> bool" where
  "js_includes [] q = (q = [])"
| "js_includes (c # cs) q = (prefix q (c # cs) \<or> js_includes cs q)"

text \<open>\<open>content.trim() === ''\<close>: every character is white space. The white space of
  ASCII is tab, line feed, vertical tab, form feed, carriage return and space; \<open>trim\<close>
  also strips white space beyond ASCII (U+00A0, U+FEFF, U+2028, ...), which is outside
  the model.\<close>

definition js_space :: "char \<Rightarrow> bool" where
  "js_space c = (of_char c \<in> {9, 10, 11, 12, 13, 32 :: nat})"

definition js_blank :: "string \<Rightarrow> bool" where
  "js_blank s = list_all js_space s"

text \<open>The first element that satisfies \<open>P\<close> is replaced: what a mutation of the
  sub-document returned by \<open>messages.id(messageId)\<close> or by \<open>unreadCounts.find(...)\<close>
  does to the array, and what the positional operator \<open>messages.$\<close> of an update
  addresses.\<close>

fun update_first :: "('a \<Rightarrow> bool) \<Rightarrow> ('a \<Rightarrow> 'a) \<Rightarrow> 'a list \<Rightarrow> 'a list" where
  "update_first P f [] = []"
| "update_first P f (x # xs) = (if P x then f x # xs else x # update_first P f xs)"

text \<open>\<open>$addToSet\<close>: the value is appended unless an equal element is in the array.\<close>

definition addToSet :: "'a \<Rightarrow> 'a list \<Rightarrow> 'a list" where
  "addToSet x xs = (if x \<in> set xs then xs else xs @ [x])"

text \<open>\<open>Chat.findById\<close>; \<open>chat.save()\<close> of a loaded document replaces the stored
  document of its id (the one \<open>findById\<close> returned); \<open>messages.id(messageId)\<close>.\<close>

definition findById :: "chat list \<Rightarrow> oid \<Rightarrow> chat option" where
  "findById cs cid = find (\<lambda>c. chat_id c = cid) cs"

definition save :: "chat \<Rightarrow> chat list \<Rightarrow> chat list" where
  "save c cs = update_first (\<lambda>d. chat_id d = chat_id c) (\<lambda>d. c) cs"

definition message_by_id :: "message list \<Rightarrow> oid \<Rightarrow> message option" where
  "message_by_id ms mid = find (\<lambda>m. msg_id m = mid) ms"

text \<open>MessageSchema declares \<open>content\<close> as \<open>required: true\<close>; the required validator of
  a Mongoose string rejects the empty string, so \<open>save()\<close> rejects a new or edited
  message with empty content and the handler answers 500.\<close>

definition content_valid :: "string \<Rightarrow> bool" where
  "content_valid s = (s \<noteq> [])"

section \<open>Methods of the chat schema (models/Chat.js)\<close>

definition getUnreadCount :: "chat \<Rightarrow> oid \<Rightarrow> int" where
  "getUnreadCount c u =
     (case find (\<lambda>e. unread_user e = u) (unreadCounts c) of
        Some e \<Rightarrow> unread_count e
      | None \<Rightarrow> 0)"

definition resetUnreadCount :: "chat \<Rightarrow> oid \<Rightarrow> chat" where
  "resetUnreadCount c u =
     (case find (\<lambda>e. unread_user e = u) (unreadCounts c) of
        Some e \<Rightarrow>
          c\<lparr>unreadCounts :=
              update_first (\<lambda>e. unread_user e = u) (\<lambda>e. e\<lparr>unread_count := 0\<rparr>) (unreadCounts c)\<rparr>
      | None \<Rightarrow>
          c\<lparr>unreadCounts := unreadCounts c @ [\<lparr>unread_user = u, unread_count = 0\<rparr>]\<rparr>)"

text \<open>\<open>findDirectChat\<close>: the first chat of type direct whose participant array has
  size 2 and holds both ids (\<open>$all\<close>).\<close>

definition findDirectChat :: "chat list \<Rightarrow> oid \<Rightarrow> oid \<Rightarrow> chat option" where
  "findDirectChat cs u1 u2 =
     find (\<lambda>c. kind c = Direct \<and> u1 \<in> set (participants c) \<and> u2 \<in> set (participants c)
               \<and> length (participants c) = 2) cs"

section \<open>The chat controller (controllers/chat.controller.js)\<close>

text \<open>
  Every handler takes the Chat collection and returns either the error it answers with
  or the collection after \<open>chat.save()\<close> together with what the response is built
  from. For a handler that answers with a message this is the message as stored: the
  \<open>populate\<close> of \<open>sender\<close> and \<open>replyTo\<close> that shapes the response body (and leaves
  \<open>replyTo\<close> null there, the Message collection being empty) is not modelled.
  \<open>now\<close> is the clock and \<open>newId\<close> the ObjectId Mongoose gives a new document.
  A handler that answers with an error has saved nothing.
\<close>

record messages_page =
  page_messages :: "message list"
  totalCount :: nat

text \<open>\<open>parsedPage\<close> and \<open>parsedLimit\<close> are the results of \<open>parseInt\<close> on the query
  parameters (1 and 50 when absent), \<open>None\<close> for \<open>NaN\<close>. \<open>slice\<close> reads a \<open>NaN\<close>
  index as 0.\<close>

definition getMessages ::
  "oid \<Rightarrow> oid \<Rightarrow> int option \<Rightarrow> int option \<Rightarrow> chat list \<Rightarrow> error + (chat list \<times> messages_page)" where
  "getMessages userId chatId parsedPage parsedLimit cs =
     (case findById cs chatId of
        None \<Rightarrow> Inl NotFound
      | Some chat \<Rightarrow>
          if userId \<notin> set (participants chat) then Inl Forbidden
          else
            let visible = filter (\<lambda>msg. userId \<notin> set (deletedFor msg)) (messages chat);
                newest_first = sort_key (\<lambda>m. - createdAt m) visible;
                sliced =
                  (case (parsedPage, parsedLimit) of
                     (Some p, Some l) \<Rightarrow> js_slice newest_first ((p - 1) * l) ((p - 1) * l + l)
                   | _ \<Rightarrow> js_slice newest_first 0 0)
            in Inr (save (resetUnreadCount chat userId) cs,
                    \<lparr>page_messages = rev sliced, totalCount = length visible\<rparr>))"

text \<open>\<open>files\<close> are the uploaded files as the attachments they become.\<close>

definition new_message :: "time \<Rightarrow> oid \<Rightarrow> oid \<Rightarrow> string \<Rightarrow> attachment list \<Rightarrow> oid option \<Rightarrow> message" where
  "new_message now newId userId text files reply =
     \<lparr>msg_id = newId, sender = userId, content = text, attachments = files, reactions = [],
      readBy = [\<lparr>read_user = Some userId, readAt = now\<rparr>],
      deliveredTo = [\<lparr>delivered_user = Some userId, deliveredAt = now\<rparr>],
      isDeleted = False, deletedFor = [], replyTo = reply, edited = False, editHistory = [],
      createdAt = now\<rparr>"

definition bump_unread :: "oid \<Rightarrow> unread_entry list \<Rightarrow> unread_entry list" where
  "bump_unread userId items =
     map (\<lambda>item. if unread_user item \<noteq> userId then item\<lparr>unread_count := unread_count item + 1\<rparr>
                  else item) items"

definition sendMessage ::
  "time \<Rightarrow> oid \<Rightarrow> oid \<Rightarrow> string \<Rightarrow> attachment list \<Rightarrow> oid \<Rightarrow> chat list \<Rightarrow> error + (chat list \<times> message)" where
  "sendMessage now newId userId text files chatId cs =
     (if text = [] \<and> files = [] then Inl BadRequest
      else case findById cs chatId of
        None \<Rightarrow> Inl NotFound
      | Some chat \<Rightarrow>
          if userId \<notin> set (participants chat) then Inl Forbidden
          else
            let newMessage = new_message now newId userId text files None;
                chat' = chat\<lparr>messages := messages chat @ [newMessage],
                             unreadCounts := bump_unread userId (unreadCounts chat)\<rparr>
            in if content_valid text then Inr (save chat' cs, newMessage) else Inl ServerError)"

text \<open>\<open>message.readBy.some(read => read.user.toString() === userId.toString())\<close>
  stops at the first match and throws a TypeError at an entry without \<open>user\<close> that it
  reaches before one (\<open>None\<close>).\<close>

fun readBy_some :: "read_entry list \<Rightarrow> oid \<Rightarrow> bool option" where
  "readBy_some [] u = Some False"
| "readBy_some (r # rs) u =
     (case read_user r of
        None \<Rightarrow> None
      | Some v \<Rightarrow> if v = u then Some True else readBy_some rs u)"

definition mark_read :: "time \<Rightarrow> oid \<Rightarrow> message \<Rightarrow> message option" where
  "mark_read now userId m =
     (case readBy_some (readBy m) userId of
        None \<Rightarrow> None
      | Some True \<Rightarrow> Some m
      | Some False \<Rightarrow> Some (m\<lparr>readBy := readBy m @ [\<lparr>read_user = Some userId, readAt = now\<rparr>]\<rparr>))"

definition markMessagesAsRead :: "time \<Rightarrow> oid \<Rightarrow> oid \<Rightarrow> chat list \<Rightarrow> error + chat list" where
  "markMessagesAsRead now userId chatId cs =
     (case findById cs chatId of
        None \<Rightarrow> Inl NotFound
      | Some chat \<Rightarrow>
          if userId \<notin> set (participants chat) then Inl Forbidden
          else (case those (map (mark_read now userId) (messages chat)) of
                  None \<Rightarrow> Inl ServerError
                | Some ms \<Rightarrow> Inr (save ((resetUnreadCount chat userId)\<lparr>messages := ms\<rparr>) cs)))"

text \<open>\<open>forEveryone\<close> is a query parameter: absent (\<open>None\<close>, the default \<open>false\<close>) or a
  string, which is truthy unless empty.\<close>

definition query_truthy :: "string option \<Rightarrow> bool" where
  "query_truthy q = (case q of None \<Rightarrow> False | Some s \<Rightarrow> s \<noteq> [])"

definition placeholder :: string where
  "placeholder = ''This message was deleted''"

definition tombstone :: "message \<Rightarrow> message" where
  "tombstone m = m\<lparr>isDeleted := True, content := placeholder, attachments := []\<rparr>"

definition hide_for :: "oid \<Rightarrow> message \<Rightarrow> message" where
  "hide_for userId m =
     (if userId \<in> set (deletedFor m) then m else m\<lparr>deletedFor := deletedFor m @ [userId]\<rparr>)"

definition deleteMessage :: "oid \<Rightarrow> oid \<Rightarrow> oid \<Rightarrow> string option \<Rightarrow> chat list \<Rightarrow> error + chat list" where
  "deleteMessage userId chatId messageId forEveryone cs =
     (case findById cs chatId of
        None \<Rightarrow> Inl NotFound
      | Some chat \<Rightarrow>
          (case message_by_id (messages chat) messageId of
             None \<Rightarrow> Inl NotFound
           | Some message \<Rightarrow>
               if query_truthy forEveryone \<and> sender message \<noteq> userId then Inl Forbidden
               else if query_truthy forEveryone
               then Inr (save (chat\<lparr>messages :=
                           update_first (\<lambda>m. msg_id m = messageId) tombstone (messages chat)\<rparr>) cs)
               else Inr (save (chat\<lparr>messages :=
                           update_first (\<lambda>m. msg_id m = messageId) (hide_for userId) (messages chat)\<rparr>) cs)))"

definition drop_reactions :: "oid \<Rightarrow> message \<Rightarrow> message" where
  "drop_reactions userId m =
     m\<lparr>reactions := filter (\<lambda>r. reaction_user r \<noteq> userId) (reactions m)\<rparr>"

definition set_reaction :: "oid \<Rightarrow> string \<Rightarrow> message \<Rightarrow> message" where
  "set_reaction userId emoji m =
     m\<lparr>reactions := filter (\<lambda>r. reaction_user r \<noteq> userId) (reactions m)
                      @ [\<lparr>reaction_user = userId, reaction_emoji = emoji\<rparr>]\<rparr>"

definition addReaction :: "oid \<Rightarrow> oid \<Rightarrow> oid \<Rightarrow> string \<Rightarrow> chat list \<Rightarrow> error + chat list" where
  "addReaction userId chatId messageId emoji cs =
     (if emoji = [] then Inl BadRequest
      else case findById cs chatId of
        None \<Rightarrow> Inl NotFound
      | Some chat \<Rightarrow>
          if userId \<notin> set (participants chat) then Inl Forbidden
          else (case message_by_id (messages chat) messageId of
                  None \<Rightarrow> Inl NotFound
                | Some message \<Rightarrow>
                    Inr (save (chat\<lparr>messages :=
                           update_first (\<lambda>m. msg_id m = messageId) (set_reaction userId emoji)
                             (messages chat)\<rparr>) cs)))"

definition removeReaction :: "oid \<Rightarrow> oid \<Rightarrow> oid \<Rightarrow> chat list \<Rightarrow> error + chat list" where
  "removeReaction userId chatId messageId cs =
     (case findById cs chatId of
        None \<Rightarrow> Inl NotFound
      | Some chat \<Rightarrow>
          (case message_by_id (messages chat) messageId of
             None \<Rightarrow> Inl NotFound
           | Some message \<Rightarrow>
               Inr (save (chat\<lparr>messages :=
                      update_first (\<lambda>m. msg_id m = messageId) (drop_reactions userId)
                        (messages chat)\<rparr>) cs)))"

text \<open>\<open>editMessage\<close> reads \<open>chat.messages\<close> without a null check: an unknown chat is a
  TypeError, answered with 500.\<close>

definition apply_edit :: "time \<Rightarrow> string \<Rightarrow> message \<Rightarrow> message" where
  "apply_edit now text m =
     m\<lparr>editHistory := editHistory m @ [\<lparr>edit_content = content m, editedAt = now\<rparr>],
       content := text, edited := True\<rparr>"

definition editMessage ::
  "time \<Rightarrow> oid \<Rightarrow> oid \<Rightarrow> oid \<Rightarrow> string \<Rightarrow> chat list \<Rightarrow> error + (chat list \<times> message)" where
  "editMessage now userId chatId messageId text cs =
     (case findById cs chatId of
        None \<Rightarrow> Inl ServerError
      | Some chat \<Rightarrow>
          (case message_by_id (messages chat) messageId of
             None \<Rightarrow> Inl Forbidden
           | Some message \<Rightarrow>
               if sender message \<noteq> userId then Inl Forbidden
               else if content_valid text
               then Inr (save (chat\<lparr>messages :=
                           update_first (\<lambda>m. msg_id m = messageId) (apply_edit now text)
                             (messages chat)\<rparr>) cs,
                         apply_edit now text message)
               else Inl ServerError))"

text \<open>\<open>searchMessages\<close> reads neither \<open>req.user\<close> nor \<open>deletedFor\<close>. The query
  parameter may be absent (\<open>None\<close>); \<open>query.toLowerCase()\<close> then throws in the first
  call of the filter's callback.\<close>

definition searchMessages :: "oid \<Rightarrow> string option \<Rightarrow> chat list \<Rightarrow> error + message list" where
  "searchMessages chatId query cs =
     (case findById cs chatId of
        None \<Rightarrow> Inl ServerError
      | Some chat \<Rightarrow>
          (case query of
             None \<Rightarrow> if messages chat = [] then Inr [] else Inl ServerError
           | Some q \<Rightarrow>
               Inr (filter (\<lambda>msg. js_includes (toLowerCase (content msg)) (toLowerCase q))
                      (messages chat))))"

definition replyToMessage ::
  "time \<Rightarrow> oid \<Rightarrow> oid \<Rightarrow> oid \<Rightarrow> oid \<Rightarrow> string \<Rightarrow> chat list \<Rightarrow> error + (chat list \<times> message)" where
  "replyToMessage now newId userId chatId messageId text cs =
     (if text = [] \<or> js_blank text then Inl BadRequest
      else case findById cs chatId of
        None \<Rightarrow> Inl NotFound
      | Some chat \<Rightarrow>
          (case message_by_id (messages chat) messageId of
             None \<Rightarrow> Inl NotFound
           | Some originalMessage \<Rightarrow>
               let newMessage = new_message now newId userId text [] (Some messageId);
                   chat' = chat\<lparr>messages := messages chat @ [newMessage],
                                unreadCounts := bump_unread userId (unreadCounts chat)\<rparr>
               in Inr (save chat' cs, newMessage)))"

text \<open>\<open>createDirectChat\<close> looks both users up, compares their companies
  (\<open>company.toString()\<close> of a user without company is a TypeError), returns the chat
  \<open>findDirectChat\<close> finds with 200, and otherwise inserts a new chat and returns it
  with 201.\<close>

datatype http_ok = OK200 | Created201

definition find_user :: "user list \<Rightarrow> oid \<Rightarrow> user option" where
  "find_user us uid = find (\<lambda>u. user_id u = uid) us"

definition createDirectChat ::
  "oid \<Rightarrow> user list \<Rightarrow> oid \<Rightarrow> oid \<Rightarrow> chat list \<Rightarrow> error + (chat list \<times> http_ok \<times> chat)" where
  "createDirectChat newId us userId targetUserId cs =
     (case (find_user us userId, find_user us targetUserId) of
        (Some currentUser, Some targetUser) \<Rightarrow>
          (case (company currentUser, company targetUser) of
             (Some c1, Some c2) \<Rightarrow>
               if c1 \<noteq> c2 then Inl Forbidden
               else (case findDirectChat cs userId targetUserId of
                  Some existingChat \<Rightarrow> Inr (cs, OK200, existingChat)
                | None \<Rightarrow>
                    let newChat = \<lparr>chat_id = newId, kind = Direct,
                          participants = [userId, targetUserId], messages = [],
                          chat_name = [], admins = [],
                          unreadCounts = [\<lparr>unread_user = userId, unread_count = 0\<rparr>,
                                          \<lparr>unread_user = targetUserId, unread_count = 0\<rparr>]\<rparr>
                    in Inr (cs @ [newChat], Created201, newChat))
           | _ \<Rightarrow> Inl ServerError)
      | _ \<Rightarrow> Inl NotFound)"

text \<open>
  \<open>createGroupChat\<close>: \<open>participants\<close> is \<open>None\<close> when the body has none or it is not an
  array. \<open>[...new Set([userId, ...participants])]\<close> keeps the first occurrence of every
  id. \<open>User.find\<close> returns the users whose id is among them. \<open>some\<close> stops at the
  first user of another company and throws at a user without company that it reaches
  before one.
\<close>

definition set_spread :: "'a list \<Rightarrow> 'a list" where
  "set_spread xs = rev (remdups (rev xs))"

fun some_other_company :: "user list \<Rightarrow> oid \<Rightarrow> bool option" where
  "some_other_company [] companyId = Some False"
| "some_other_company (u # us) companyId =
     (case company u of
        None \<Rightarrow> None
      | Some c \<Rightarrow> if c \<noteq> companyId then Some True else some_other_company us companyId)"

definition createGroupChat ::
  "oid \<Rightarrow> user list \<Rightarrow> oid \<Rightarrow> string \<Rightarrow> oid list option \<Rightarrow> chat list
   \<Rightarrow> error + (chat list \<times> chat)" where
  "createGroupChat newId us userId name' participants' cs =
     (case participants' of
        None \<Rightarrow> Inl BadRequest
      | Some ps \<Rightarrow>
          if name' = [] then Inl BadRequest
          else
            let allParticipants = set_spread (userId # ps);
                participantUsers = filter (\<lambda>u. user_id u \<in> set allParticipants) us
            in if length participantUsers \<noteq> length allParticipants then Inl NotFound
               else (case find_user us userId of
                  None \<Rightarrow> Inl ServerError
                | Some currentUser \<Rightarrow>
                    (case company currentUser of
                       None \<Rightarrow> Inl ServerError
                     | Some companyId \<Rightarrow>
                         (case some_other_company participantUsers companyId of
                            None \<Rightarrow> Inl ServerError
                          | Some True \<Rightarrow> Inl Forbidden
                          | Some False \<Rightarrow>
                              let newChat = \<lparr>chat_id = newId, kind = Group,
                                    participants = allParticipants, messages = [],
                                    chat_name = name', admins = [userId],
                                    unreadCounts =
                                      map (\<lambda>i. \<lparr>unread_user = i, unread_count = 0\<rparr>)
                                        allParticipants\<rparr>
                              in Inr (cs @ [newChat], newChat)))))"

section \<open>The notification controller (controllers/notification.controller.js)\<close>

text \<open>\<open>createNotification\<close> is the only function of the repository that inserts a
  Notification; the task helpers and the scheduler call it, the chat controller and the
  socket server do not.\<close>

definition createNotification :: "notification \<Rightarrow> notification list \<Rightarrow> notification list" where
  "createNotification n ns = ns @ [n]"

section \<open>The socket server (socket.js)\<close>

type_synonym sid = nat

datatype presence = Online | Offline

text \<open>\<open>userSockets\<close> is the in-memory \<open>Map\<close> from a user id to the id of the socket
  registered last for it: set on connection, deleted on disconnect.\<close>

definition has :: "('k \<rightharpoonup> 'v) \<Rightarrow> 'k \<Rightarrow> bool" where
  "has m k = (m k \<noteq> None)"

definition on_connection :: "(oid \<rightharpoonup> sid) \<Rightarrow> oid \<Rightarrow> sid \<Rightarrow> (oid \<rightharpoonup> sid)" where
  "on_connection userSockets userId socketId = userSockets(userId \<mapsto> socketId)"

definition on_disconnect :: "(oid \<rightharpoonup> sid) \<Rightarrow> oid \<Rightarrow> (oid \<rightharpoonup> sid)" where
  "on_disconnect userSockets userId = userSockets(userId := None)"

definition getUserStatus :: "(oid \<rightharpoonup> sid) \<Rightarrow> oid \<Rightarrow> presence" where
  "getUserStatus userSockets userId = (if has userSockets userId then Online else Offline)"

text \<open>\<open>getPresence\<close> fills the object \<open>presenceInfo\<close> key by key, in the order of
  \<open>userIds\<close>.\<close>

definition getPresence :: "(oid \<rightharpoonup> sid) \<Rightarrow> oid list \<Rightarrow> (oid \<rightharpoonup> presence)" where
  "getPresence userSockets userIds =
     fold (\<lambda>i presenceInfo. presenceInfo(i \<mapsto> (if has userSockets i then Online else Offline)))
       userIds Map.empty"

text \<open>\<open>Chat.updateOne({_id: chatId, 'messages._id': messageId}, {op: {'messages.$.f': v}})\<close>
  changes, in the first chat that matches, the first message with that id.\<close>

definition updateOne_message :: "oid \<Rightarrow> oid \<Rightarrow> (message \<Rightarrow> message) \<Rightarrow> chat list \<Rightarrow> chat list" where
  "updateOne_message chatId messageId f cs =
     update_first (\<lambda>c. chat_id c = chatId \<and> list_ex (\<lambda>m. msg_id m = messageId) (messages c))
       (\<lambda>c. c\<lparr>messages := update_first (\<lambda>m. msg_id m = messageId) f (messages c)\<rparr>) cs"

text \<open>
  \<open>messageRead\<close> adds \<open>{userId, readAt: new Date()}\<close> to \<open>readBy\<close> with \<open>$addToSet\<close>.
  The key it writes is \<open>userId\<close>; the field every reader of \<open>readBy\<close> looks at is
  \<open>user\<close>, which the entry does not have. Mongoose casts the value to a sub-document
  of \<open>readBy\<close> with an \<open>_id\<close> of its own, so it equals no stored entry and
  \<open>$addToSet\<close> appends it every time, also twice within one millisecond. The handler then reads \<open>chat.unreadCount\<close>,
  which the schema does not have (the counters are \<open>unreadCounts\<close>): for a chat that is
  found, \<open>unreadMap\<close> is \<open>{}\<close>, \<open>unreadMap.get\<close> throws and the catch block ends the
  handler, so nothing else is stored.
\<close>

definition socket_messageRead :: "time \<Rightarrow> oid \<Rightarrow> oid \<Rightarrow> oid \<Rightarrow> chat list \<Rightarrow> chat list" where
  "socket_messageRead now chatId messageId userId cs =
     updateOne_message chatId messageId
       (\<lambda>m. m\<lparr>readBy := readBy m @ [\<lparr>read_user = None, readAt = now\<rparr>]\<rparr>) cs"

text \<open>\<open>addReaction\<close>: a \<open>$pull\<close> of the user's reactions, then an \<open>$addToSet\<close> of the
  new one (its \<open>createdAt\<close> is not a field of the reaction sub-schema).\<close>

definition socket_addReaction :: "oid \<Rightarrow> oid \<Rightarrow> oid \<Rightarrow> string \<Rightarrow> chat list \<Rightarrow> chat list" where
  "socket_addReaction socketUser chatId messageId emoji cs =
     updateOne_message chatId messageId
       (\<lambda>m. m\<lparr>reactions :=
                addToSet \<lparr>reaction_user = socketUser, reaction_emoji = emoji\<rparr> (reactions m)\<rparr>)
       (updateOne_message chatId messageId (drop_reactions socketUser) cs)"

definition socket_removeReaction :: "oid \<Rightarrow> oid \<Rightarrow> oid \<Rightarrow> chat list \<Rightarrow> chat list" where
  "socket_removeReaction socketUser chatId messageId cs =
     updateOne_message chatId messageId (drop_reactions socketUser) cs"

text \<open>
  \<open>deleteMessage\<close>, for everyone: the guard is
  \<open>Chat.findOne({_id, 'messages._id': messageId, 'messages.sender': socket.userId})\<close>.
  Two conditions on fields of an array of sub-documents, outside \<open>$elemMatch\<close>, are each
  met by some element of the array, not necessarily the same one. Then only \<open>isDeleted\<close>
  is set. For the user alone: the user id is added to \<open>deletedFor\<close>.
\<close>

definition socket_deleteMessage :: "oid \<Rightarrow> oid \<Rightarrow> oid \<Rightarrow> bool \<Rightarrow> chat list \<Rightarrow> chat list" where
  "socket_deleteMessage socketUser chatId messageId forEveryone cs =
     (if forEveryone
      then (case find (\<lambda>c. chat_id c = chatId
                          \<and> list_ex (\<lambda>m. msg_id m = messageId) (messages c)
                          \<and> list_ex (\<lambda>m. sender m = socketUser) (messages c)) cs of
              None \<Rightarrow> cs
            | Some chat \<Rightarrow> updateOne_message chatId messageId (\<lambda>m. m\<lparr>isDeleted := True\<rparr>) cs)
      else updateOne_message chatId messageId
             (\<lambda>m. m\<lparr>deletedFor := addToSet socketUser (deletedFor m)\<rparr>) cs)"

text \<open>
  \<open>sendMessage\<close> reads \<open>p.user\<close> of every participant \<open>p\<close> of the chat. The
  participants of the schema are ObjectIds, which have no property \<open>user\<close>, so
  \<open>p.user.toString()\<close> throws at the first participant and the catch block ends the
  handler. Only for a chat without participants does the handler go on, with no online
  participant and so without the \<open>deliveredTo\<close> update. No branch of the handler
  inserts a Notification.
\<close>

definition participant_user :: "oid \<Rightarrow> oid option" where
  "participant_user p = None"

definition socket_sendMessage ::
  "time \<Rightarrow> (oid \<rightharpoonup> sid) \<Rightarrow> oid \<Rightarrow> oid \<Rightarrow> oid \<Rightarrow> chat list \<Rightarrow> chat list" where
  "socket_sendMessage now userSockets socketUser chatId messageId cs =
     (case findById cs chatId of
        None \<Rightarrow> cs
      | Some chat \<Rightarrow>
          (case those (map participant_user (participants chat)) of
             None \<Rightarrow> cs
           | Some ps \<Rightarrow>
               let onlineParticipants = filter (\<lambda>p. p \<noteq> socketUser \<and> has userSockets p) ps
               in if onlineParticipants \<noteq> []
                  then updateOne_message chatId messageId
                         (\<lambda>m. m\<lparr>deliveredTo := deliveredTo m @
                                  map (\<lambda>p. \<lparr>delivered_user = None, deliveredAt = now\<rparr>)
                                    onlineParticipants\<rparr>) cs
                  else cs))"

section \<open>The server state and its transitions\<close>

record server =
  users :: "user list"
  chats :: "chat list"
  notifications :: "notification list"
  userSockets :: "oid \<rightharpoonup> sid"

text \<open>A user action: the requests of the chat routes that write or list messages, the
  events of the socket server that write to the chats, and the connection and the
  disconnection of a socket. Each carries the acting user first.\<close>

datatype action =
    SendMessage oid oid string "attachment list"
  | ReplyToMessage oid oid oid string
  | MarkMessagesAsRead oid oid
  | DeleteMessage oid oid oid "string option"
  | AddReaction oid oid oid string
  | RemoveReaction oid oid oid
  | EditMessage oid oid oid string
  | GetMessages oid oid "int option" "int option"
  | SearchMessages oid "string option"
  | CreateDirectChat oid oid
  | CreateGroupChat oid string "oid list option"
  | SocketSendMessage oid oid oid
  | SocketMessageRead oid oid oid
  | SocketAddReaction oid oid oid string
  | SocketRemoveReaction oid oid oid
  | SocketDeleteMessage oid oid oid bool
  | Connect oid sid
  | Disconnect oid

definition stored :: "chat list \<Rightarrow> error + chat list \<Rightarrow> chat list" where
  "stored cs r = (case r of Inl e \<Rightarrow> cs | Inr cs' \<Rightarrow> cs')"

definition stored_fst :: "chat list \<Rightarrow> error + (chat list \<times> 'a) \<Rightarrow> chat list" where
  "stored_fst cs r = (case r of Inl e \<Rightarrow> cs | Inr (cs', x) \<Rightarrow> cs')"

fun step_chats :: "time \<Rightarrow> oid \<Rightarrow> server \<Rightarrow> action \<Rightarrow> chat list" where
  "step_chats now newId s (SendMessage u c text files) =
     stored_fst (chats s) (sendMessage now newId u text files c (chats s))"
| "step_chats now newId s (ReplyToMessage u c m text) =
     stored_fst (chats s) (replyToMessage now newId u c m text (chats s))"
| "step_chats now newId s (MarkMessagesAsRead u c) =
     stored (chats s) (markMessagesAsRead now u c (chats s))"
| "step_chats now newId s (DeleteMessage u c m forEveryone) =
     stored (chats s) (deleteMessage u c m forEveryone (chats s))"
| "step_chats now newId s (AddReaction u c m emoji) =
     stored (chats s) (addReaction u c m emoji (chats s))"
| "step_chats now newId s (RemoveReaction u c m) =
     stored (chats s) (removeReaction u c m (chats s))"
| "step_chats now newId s (EditMessage u c m text) =
     stored_fst (chats s) (editMessage now u c m text (chats s))"
| "step_chats now newId s (GetMessages u c p l) =
     stored_fst (chats s) (getMessages u c p l (chats s))"
| "step_chats now newId s (SearchMessages c q) = chats s"
| "step_chats now newId s (CreateDirectChat u t) =
     stored_fst (chats s) (createDirectChat newId (users s) u t (chats s))"
| "step_chats now newId s (CreateGroupChat u n ps) =
     stored_fst (chats s) (createGroupChat newId (users s) u n ps (chats s))"
| "step_chats now newId s (SocketSendMessage u c m) =
     socket_sendMessage now (userSockets s) u c m (chats s)"
| "step_chats now newId s (SocketMessageRead u c m) =
     socket_messageRead now c m u (chats s)"
| "step_chats now newId s (SocketAddReaction u c m emoji) =
     socket_addReaction u c m emoji (chats s)"
| "step_chats now newId s (SocketRemoveReaction u c m) =
     socket_removeReaction u c m (chats s)"
| "step_chats now newId s (SocketDeleteMessage u c m forEveryone) =
     socket_deleteMessage u c m forEveryone (chats s)"
| "step_chats now newId s (Connect u socketId) = chats s"
| "step_chats now newId s (Disconnect u) = chats s"

fun step_sockets :: "server \<Rightarrow> action \<Rightarrow> (oid \<rightharpoonup> sid)" where
  "step_sockets s (Connect u socketId) = on_connection (userSockets s) u socketId"
| "step_sockets s (Disconnect u) = on_disconnect (userSockets s) u"
| "step_sockets s a = userSockets s"

text \<open>A step replaces the chats and the socket registry; no action inserts a
  Notification or changes the users.\<close>

definition step :: "time \<Rightarrow> oid \<Rightarrow> server \<Rightarrow> action \<Rightarrow> server" where
  "step now newId s a =
     s\<lparr>chats := step_chats now newId s a, userSockets := step_sockets s a\<rparr>"

text \<open>A run: each action with the clock and the fresh id of its moment.\<close>

fun run :: "server \<Rightarrow> (time \<times> oid \<times> action) list \<Rightarrow> server" where
  "run s [] = s"
| "run s ((now, newId, a) # rest) = run (step now newId s a) rest"

section \<open>Invariants of the stored chats\<close>

text \<open>Every participant of the chat has an entry in \<open>unreadCounts\<close>.\<close>

definition counts_cover :: "chat \<Rightarrow> bool" where
  "counts_cover c =
     list_all (\<lambda>p. list_ex (\<lambda>e. unread_user e = p) (unreadCounts c)) (participants c)"

text \<open>The reactions of user \<open>u\<close> in a reaction list, and the invariant that no message
  of the collection holds more than one.\<close>

definition reactions_of :: "oid \<Rightarrow> reaction list \<Rightarrow> reaction list" where
  "reactions_of u rs = filter (\<lambda>r. reaction_user r = u) rs"

definition single_reaction :: "oid \<Rightarrow> chat list \<Rightarrow> bool" where
  "single_reaction u cs =
     list_all (\<lambda>c. list_all (\<lambda>m. length (reactions_of u (reactions m)) \<le> 1) (messages c)) cs"

text \<open>User \<open>u\<close> is in \<open>readBy\<close> of a message \<open>messageId\<close> of a chat \<open>chatId\<close>.\<close>

definition reader_of :: "oid \<Rightarrow> message \<Rightarrow> bool" where
  "reader_of u m = list_ex (\<lambda>r. read_user r = Some u) (readBy m)"

definition read_by :: "chat list \<Rightarrow> oid \<Rightarrow> oid \<Rightarrow> oid \<Rightarrow> bool" where
  "read_by cs chatId messageId u =
     list_ex (\<lambda>c. chat_id c = chatId
                \<and> list_ex (\<lambda>m. msg_id m = messageId \<and> reader_of u m) (messages c)) cs"

text \<open>The participant sets of the direct chats of two participants, one entry per
  chat: a pair of users has at most one direct chat when no set occurs twice.\<close>

definition direct_pairs :: "chat list \<Rightarrow> oid set list" where
  "direct_pairs cs =
     map (\<lambda>c. set (participants c))
       (filter (\<lambda>c. kind c = Direct \<and> length (participants c) = 2) cs)"

section \<open>What an action can do to the stored chats\<close>

text \<open>The changes the handlers make to a stored message, one rule per assignment or
  update operator in the two source files.\<close>

inductive msg_step :: "message \<Rightarrow> message \<Rightarrow> bool" where
  same: "msg_step m m"
| tombstoned: "msg_step m (tombstone m)"
| hidden: "msg_step m (hide_for u m)"
| reacted: "msg_step m (set_reaction u emoji m)"
| unreacted: "msg_step m (drop_reactions u m)"
| edited_by: "msg_step m (apply_edit now text m)"
| marked_read: "msg_step m (m\<lparr>readBy := readBy m @ [\<lparr>read_user = Some u, readAt = now\<rparr>]\<rparr>)"
| socket_read: "msg_step m (m\<lparr>readBy := readBy m @ [\<lparr>read_user = None, readAt = now\<rparr>]\<rparr>)"
| socket_deleted: "msg_step m (m\<lparr>isDeleted := True\<rparr>)"
| socket_hidden: "msg_step m (m\<lparr>deletedFor := addToSet u (deletedFor m)\<rparr>)"

definition is_new :: "message \<Rightarrow> bool" where
  "is_new m = (\<exists>now newId u text files reply. m = new_message now newId u text files reply)"

text \<open>A chat keeps its id, kind and participants, no user loses an unread counter, the
  stored messages change in place by \<open>msg_step\<close> and new messages are appended.\<close>

definition chat_step :: "chat \<Rightarrow> chat \<Rightarrow> bool" where
  "chat_step c c' =
     (chat_id c' = chat_id c \<and> kind c' = kind c \<and> participants c' = participants c
      \<and> unread_user ` set (unreadCounts c) \<subseteq> unread_user ` set (unreadCounts c')
      \<and> (\<exists>ms new. messages c' = ms @ new \<and> list_all2 msg_step (messages c) ms
                    \<and> list_all is_new new))"

definition fresh_chat :: "chat \<Rightarrow> bool" where
  "fresh_chat c = (messages c = [] \<and> counts_cover c)"

definition store_step :: "chat list \<Rightarrow> chat list \<Rightarrow> bool" where
  "store_step cs cs' =
     (\<exists>cs1 new. cs' = cs1 @ new \<and> list_all2 chat_step cs cs1 \<and> list_all fresh_chat new)"

section \<open>Concrete states used as examples\<close>

text \<open>A direct chat of users 1 and 2 with one message of user 1, which user 2 has
  deleted from their own view; user 2 has three unread messages.\<close>

definition demo_message :: message where
  "demo_message =
     \<lparr>msg_id = 100, sender = 1, content = ''Hello'', attachments = [], reactions = [],
      readBy = [\<lparr>read_user = Some 1, readAt = 5\<rparr>],
      deliveredTo = [\<lparr>delivered_user = Some 1, deliveredAt = 5\<rparr>],
      isDeleted = False, deletedFor = [2], replyTo = None, edited = False, editHistory = [],
      createdAt = 5\<rparr>"

definition demo_chat :: chat where
  "demo_chat =
     \<lparr>chat_id = 10, kind = Direct, participants = [1, 2], messages = [demo_message],
      chat_name = [], admins = [],
      unreadCounts = [\<lparr>unread_user = 1, unread_count = 0\<rparr>,
                      \<lparr>unread_user = 2, unread_count = 3\<rparr>]\<rparr>"

text \<open>An uploaded file.\<close>

definition demo_file :: attachment where
  "demo_file = \<lparr>fileName = ''plan.pdf'', fileType = ''application/pdf'',
                 fileUrl = ''uploads/plan.pdf'', fileSize = 2048\<rparr>"

text \<open>The same chat after user 2 has answered with message 101.\<close>

definition demo_answer :: message where
  "demo_answer = new_message 6 101 2 ''Hi there'' [] None"

definition demo_chat2 :: chat where
  "demo_chat2 = demo_chat\<lparr>messages := [demo_message, demo_answer]\<rparr>"

text \<open>Users 1, 2 and 3 of company 7; user 1 is connected with socket 900, users 2 and 3
  are not connected; no notification is stored.\<close>

definition demo_server :: server where
  "demo_server =
     \<lparr>users = [\<lparr>user_id = 1, company = Some 7\<rparr>, \<lparr>user_id = 2, company = Some 7\<rparr>,
               \<lparr>user_id = 3, company = Some 7\<rparr>],
      chats = [demo_chat], notifications = [], userSockets = [1 \<mapsto> 900]\<rparr>"

section \<open>Facts about the primitives\<close>

lemma findById_id: "findById cs cid = Some c \<Longrightarrow> chat_id c = cid"
  unfolding findById_def by (induction cs) (auto split: if_splits)

lemma findById_mem: "findById cs cid = Some c \<Longrightarrow> c \<in> set cs"
  unfolding findById_def by (induction cs) (auto split: if_splits)

lemma findById_save:
  "findById cs cid = Some c \<Longrightarrow> chat_id c' = cid \<Longrightarrow> findById (save c' cs) cid = Some c'"
  unfolding findById_def save_def by (induction cs) (auto split: if_splits)

lemma findById_save_other:
  "chat_id c' \<noteq> cid \<Longrightarrow> findById (save c' cs) cid = findById cs cid"
  unfolding findById_def save_def by (induction cs) auto

lemma find_update_first_same:
  "(\<And>x. P x \<Longrightarrow> P (f x)) \<Longrightarrow> find P (update_first P f xs) = map_option f (find P xs)"
  by (induction xs) auto

lemma find_append:
  "find P (xs @ ys) = (case find P xs of Some x \<Rightarrow> Some x | None \<Rightarrow> find P ys)"
  by (induction xs) auto

lemma find_Some_holds: "find P xs = Some x \<Longrightarrow> P x \<and> x \<in> set xs"
  by (induction xs) (auto split: if_splits)

lemma find_None_ex: "(find P xs = None) = (\<not> list_ex P xs)"
  by (induction xs) auto

section \<open>Unread counters\<close>

lemma getUnreadCount_reset_self: "getUnreadCount (resetUnreadCount c u) u = 0"
  unfolding getUnreadCount_def resetUnreadCount_def
  by (auto simp: find_update_first_same find_append split: option.splits)

lemma find_unread_reset_other:
  "v \<noteq> u \<Longrightarrow>
   find (\<lambda>e. unread_user e = v)
     (update_first (\<lambda>e. unread_user e = u) (\<lambda>e. e\<lparr>unread_count := 0\<rparr>) xs)
   = find (\<lambda>e. unread_user e = v) xs"
  by (induction xs) auto

lemma getUnreadCount_reset_other:
  "v \<noteq> u \<Longrightarrow> getUnreadCount (resetUnreadCount c u) v = getUnreadCount c v"
  unfolding getUnreadCount_def resetUnreadCount_def
  by (simp add: find_unread_reset_other find_append split: option.splits)

lemma resetUnreadCount_id: "chat_id (resetUnreadCount c u) = chat_id c"
  unfolding resetUnreadCount_def by (simp split: option.splits)

lemma find_bump_other:
  "v \<noteq> u \<Longrightarrow>
   find (\<lambda>e. unread_user e = v) (bump_unread u xs)
   = map_option (\<lambda>e. e\<lparr>unread_count := unread_count e + 1\<rparr>) (find (\<lambda>e. unread_user e = v) xs)"
  unfolding bump_unread_def by (induction xs) auto

lemma find_bump_self:
  "find (\<lambda>e. unread_user e = u) (bump_unread u xs) = find (\<lambda>e. unread_user e = u) xs"
  unfolding bump_unread_def by (induction xs) auto

lemma counts_cover_entry:
  "counts_cover c \<Longrightarrow> p \<in> set (participants c) \<Longrightarrow>
   \<exists>e. find (\<lambda>e. unread_user e = p) (unreadCounts c) = Some e"
  unfolding counts_cover_def
  by (metis (mono_tags, lifting) find_None_ex list_all_iff not_Some_eq)

text \<open>
  C10. Fetching the messages of a chat resets the unread counter of the participant who
  asks to zero, although the request is a read: for a chat that exists and a requester
  among its participants, \<open>getMessages\<close> succeeds whatever the page and limit are,
  the chat it saves has counter 0 for the requester, the counter of every other user is
  what it was, and every other chat is untouched.
\<close>

theorem getMessages_resets_unread:
  assumes "findById cs chatId = Some chat" and "userId \<in> set (participants chat)"
  shows "\<exists>cs' page chat'.
           getMessages userId chatId parsedPage parsedLimit cs = Inr (cs', page)
         \<and> findById cs' chatId = Some chat'
         \<and> getUnreadCount chat' userId = 0
         \<and> (\<forall>v. v \<noteq> userId \<longrightarrow> getUnreadCount chat' v = getUnreadCount chat v)
         \<and> (\<forall>other. other \<noteq> chatId \<longrightarrow> findById cs' other = findById cs other)"
proof -
  let ?chat' = "resetUnreadCount chat userId"
  have id: "chat_id ?chat' = chatId"
    using assms(1) by (simp add: resetUnreadCount_id findById_id)
  have "\<exists>page. getMessages userId chatId parsedPage parsedLimit cs = Inr (save ?chat' cs, page)"
    using assms by (simp add: getMessages_def Let_def)
  moreover have "findById (save ?chat' cs) chatId = Some ?chat'"
    using assms(1) id by (rule findById_save)
  moreover have "\<forall>other. other \<noteq> chatId \<longrightarrow> findById (save ?chat' cs) other = findById cs other"
    using id by (simp add: findById_save_other)
  ultimately show ?thesis
    using getUnreadCount_reset_self getUnreadCount_reset_other by blast
qed

theorem getMessages_resets_unread_witness:
  "findById [demo_chat] 10 = Some demo_chat \<and> 2 \<in> set (participants demo_chat)
   \<and> getUnreadCount demo_chat 2 = 3
   \<and> (\<exists>cs' page chat'.
         getMessages 2 10 (Some 1) (Some 50) [demo_chat] = Inr (cs', page)
       \<and> findById cs' 10 = Some chat'
       \<and> getUnreadCount chat' 2 = 0
       \<and> getUnreadCount chat' 1 = getUnreadCount demo_chat 1)"
proof -
  have h1: "findById [demo_chat] 10 = Some demo_chat"
    by (simp add: findById_def demo_chat_def)
  have h2: "2 \<in> set (participants demo_chat)"
    by (simp add: demo_chat_def)
  have h3: "getUnreadCount demo_chat 2 = 3"
    by (simp add: getUnreadCount_def demo_chat_def)
  from getMessages_resets_unread [OF h1 h2, of "Some 1" "Some 50"]
  obtain cs' page chat' where
    "getMessages 2 10 (Some 1) (Some 50) [demo_chat] = Inr (cs', page)"
    "findById cs' 10 = Some chat'" "getUnreadCount chat' 2 = 0"
    "\<forall>v. v \<noteq> 2 \<longrightarrow> getUnreadCount chat' v = getUnreadCount demo_chat v"
    by blast
  moreover from this have "getUnreadCount chat' 1 = getUnreadCount demo_chat 1"
    by simp
  ultimately show ?thesis
    using h1 h2 h3 by blast
qed

section \<open>Presence\<close>

lemma fold_presence:
  "fold (\<lambda>i info. info(i \<mapsto> g i)) ids acc k = (if k \<in> set ids then Some (g k) else acc k)"
  by (induction ids arbitrary: acc) auto

text \<open>
  C9. The presence query answers, for every queried id, online exactly when the id has an
  entry in the in-memory registry \<open>userSockets\<close> and offline otherwise, and has no
  entry for an id that was not queried. \<open>getPresence\<close> and \<open>getUserStatus\<close> take
  the registry and the ids and nothing else: no stored document enters the answer.
\<close>

theorem getPresence_registry:
  "getPresence registry userIds i =
     (if i \<in> set userIds then Some (getUserStatus registry i) else None)
   \<and> (getUserStatus registry i = Online) = (registry i \<noteq> None)
   \<and> (getUserStatus registry i = Offline) = (registry i = None)"
  unfolding getPresence_def getUserStatus_def has_def by (simp add: fold_presence)

lemma registry_connection:
  "getUserStatus (on_connection registry u s) u = Online"
  "getUserStatus (on_disconnect registry u) u = Offline"
  by (simp_all add: getUserStatus_def has_def on_connection_def on_disconnect_def)

section \<open>Sending a message\<close>

lemma sendMessage_accepts:
  assumes "findById cs chatId = Some chat" and "userId \<in> set (participants chat)"
    and "text \<noteq> []"
  shows "\<exists>cs' msg. sendMessage now newId userId text files chatId cs = Inr (cs', msg)"
  using assms by (simp add: sendMessage_def Let_def content_valid_def)

lemma sendMessage_Inr:
  assumes "findById cs chatId = Some chat"
    and "sendMessage now newId userId text files chatId cs = Inr (cs', msg)"
  shows "msg = new_message now newId userId text files None
       \<and> cs' = save (chat\<lparr>messages := messages chat @ [msg],
                             unreadCounts := bump_unread userId (unreadCounts chat)\<rparr>) cs
       \<and> userId \<in> set (participants chat)"
  using assms by (auto simp: sendMessage_def Let_def split: if_splits)

lemma getUnreadCount_bump_other:
  assumes "v \<noteq> u" and "find (\<lambda>e. unread_user e = v) (unreadCounts c) = Some e"
  shows "getUnreadCount (c\<lparr>messages := ms, unreadCounts := bump_unread u (unreadCounts c)\<rparr>) v
         = getUnreadCount c v + 1"
  using assms by (simp add: getUnreadCount_def find_bump_other)

lemma getUnreadCount_bump_self:
  "getUnreadCount (c\<lparr>messages := ms, unreadCounts := bump_unread u (unreadCounts c)\<rparr>) u
   = getUnreadCount c u"
  by (simp add: getUnreadCount_def find_bump_self)

lemma sendMessage_empty_text:
  assumes "findById cs chatId = Some chat" and "userId \<in> set (participants chat)"
  shows "sendMessage now newId userId [] files chatId cs
         = (if files = [] then Inl BadRequest else Inl ServerError)"
  using assms by (simp add: sendMessage_def Let_def content_valid_def)

text \<open>
  The Created transition for a message with text. In a chat whose participants all have
  an unread counter (\<open>counts_cover\<close>, which both creation handlers establish and every
  action keeps), a participant's \<open>sendMessage\<close> succeeds exactly when the text is not
  empty; and whenever it succeeds, the saved chat has the new message appended at the end
  of its messages, the new message has the fresh id, the text and the attachments of the
  request, the sender is in its \<open>readBy\<close> and in its \<open>deliveredTo\<close>, the counter of
  every participant other than the sender is one more than before, and the counter of the
  sender is unchanged.
\<close>

theorem sendMessage_created:
  assumes found: "findById cs chatId = Some chat"
    and cover: "counts_cover chat"
    and part: "userId \<in> set (participants chat)"
  shows "(\<exists>cs' msg. sendMessage now newId userId text files chatId cs = Inr (cs', msg))
           = (text \<noteq> [])
       \<and> (\<forall>cs' msg. sendMessage now newId userId text files chatId cs = Inr (cs', msg) \<longrightarrow>
            (\<exists>chat'. findById cs' chatId = Some chat'
               \<and> messages chat' = messages chat @ [msg]
               \<and> msg_id msg = newId \<and> sender msg = userId
               \<and> content msg = text \<and> attachments msg = files
               \<and> reactions msg = [] \<and> \<not> isDeleted msg \<and> deletedFor msg = []
               \<and> list_ex (\<lambda>r. read_user r = Some userId) (readBy msg)
               \<and> list_ex (\<lambda>d. delivered_user d = Some userId) (deliveredTo msg)
               \<and> (\<forall>p \<in> set (participants chat). p \<noteq> userId \<longrightarrow>
                      getUnreadCount chat' p = getUnreadCount chat p + 1)
               \<and> getUnreadCount chat' userId = getUnreadCount chat userId))"
proof (intro conjI allI impI)
  show "(\<exists>cs' msg. sendMessage now newId userId text files chatId cs = Inr (cs', msg))
          = (text \<noteq> [])"
  proof (cases "text = []")
    case True
    then show ?thesis
      using sendMessage_empty_text [OF found part, of now newId files] by simp
  next
    case False
    with found part show ?thesis
      using sendMessage_accepts [of cs chatId chat userId "text" now newId files] by simp
  qed
next
  fix cs' msg
  assume ok: "sendMessage now newId userId text files chatId cs = Inr (cs', msg)"
  let ?chat' = "chat\<lparr>messages := messages chat @ [msg],
                     unreadCounts := bump_unread userId (unreadCounts chat)\<rparr>"
  from sendMessage_Inr [OF found ok]
  have msg: "msg = new_message now newId userId text files None" and cs': "cs' = save ?chat' cs"
    by simp_all
  have "chat_id ?chat' = chatId"
    using found by (simp add: findById_id)
  with found have 1: "findById cs' chatId = Some ?chat'"
    unfolding cs' by (rule findById_save)
  have 2: "messages ?chat' = messages chat @ [msg]" by simp
  have 3: "msg_id msg = newId \<and> sender msg = userId \<and> content msg = text
           \<and> attachments msg = files \<and> reactions msg = [] \<and> \<not> isDeleted msg
           \<and> deletedFor msg = []"
    and 4: "list_ex (\<lambda>r. read_user r = Some userId) (readBy msg)"
    and 5: "list_ex (\<lambda>d. delivered_user d = Some userId) (deliveredTo msg)"
    by (simp_all add: msg new_message_def)
  have 6: "\<forall>p \<in> set (participants chat). p \<noteq> userId \<longrightarrow>
             getUnreadCount ?chat' p = getUnreadCount chat p + 1"
    using counts_cover_entry [OF cover] getUnreadCount_bump_other by blast
  have 7: "getUnreadCount ?chat' userId = getUnreadCount chat userId"
    by (rule getUnreadCount_bump_self)
  from 1 2 3 4 5 6 7
  show "\<exists>chat'. findById cs' chatId = Some chat'
               \<and> messages chat' = messages chat @ [msg]
               \<and> msg_id msg = newId \<and> sender msg = userId
               \<and> content msg = text \<and> attachments msg = files
               \<and> reactions msg = [] \<and> \<not> isDeleted msg \<and> deletedFor msg = []
               \<and> list_ex (\<lambda>r. read_user r = Some userId) (readBy msg)
               \<and> list_ex (\<lambda>d. delivered_user d = Some userId) (deliveredTo msg)
               \<and> (\<forall>p \<in> set (participants chat). p \<noteq> userId \<longrightarrow>
                      getUnreadCount chat' p = getUnreadCount chat p + 1)
               \<and> getUnreadCount chat' userId = getUnreadCount chat userId"
    by blast
qed

theorem sendMessage_created_witness:
  "findById [demo_chat] 10 = Some demo_chat \<and> counts_cover demo_chat
   \<and> 1 \<in> set (participants demo_chat) \<and> 2 \<in> set (participants demo_chat)
   \<and> (\<exists>cs' msg chat'.
         sendMessage 6 101 1 ''Hi'' [demo_file] 10 [demo_chat] = Inr (cs', msg)
       \<and> findById cs' 10 = Some chat'
       \<and> messages chat' = [demo_message, msg]
       \<and> msg_id msg = 101 \<and> content msg = ''Hi'' \<and> attachments msg = [demo_file]
       \<and> getUnreadCount chat' 2 = 4
       \<and> getUnreadCount chat' 1 = 0)"
proof -
  have h1: "findById [demo_chat] 10 = Some demo_chat"
    by (simp add: findById_def demo_chat_def)
  have h2: "counts_cover demo_chat"
    by (simp add: counts_cover_def demo_chat_def)
  have h3: "1 \<in> set (participants demo_chat)" and h4: "2 \<in> set (participants demo_chat)"
    by (simp_all add: demo_chat_def)
  have c1: "getUnreadCount demo_chat 1 = 0" and c2: "getUnreadCount demo_chat 2 = 3"
    by (simp_all add: getUnreadCount_def demo_chat_def)
  have ms: "messages demo_chat = [demo_message]"
    by (simp add: demo_chat_def)
  note t = sendMessage_created [OF h1 h2 h3, of 6 101 "''Hi''" "[demo_file]"]
  from t obtain cs' msg where
    ok: "sendMessage 6 101 1 ''Hi'' [demo_file] 10 [demo_chat] = Inr (cs', msg)"
    by auto
  with t obtain chat' where
    "findById cs' 10 = Some chat'" "messages chat' = messages demo_chat @ [msg]"
    "msg_id msg = 101" "content msg = ''Hi''" "attachments msg = [demo_file]"
    "\<forall>p \<in> set (participants demo_chat). p \<noteq> 1 \<longrightarrow>
        getUnreadCount chat' p = getUnreadCount demo_chat p + 1"
    "getUnreadCount chat' 1 = getUnreadCount demo_chat 1"
    by blast
  with h4 c1 c2 ms have
    "findById cs' 10 = Some chat'" "messages chat' = [demo_message, msg]"
    "msg_id msg = 101" "content msg = ''Hi''" "attachments msg = [demo_file]"
    "getUnreadCount chat' 2 = 4" "getUnreadCount chat' 1 = 0"
    by auto
  with ok h1 h2 h3 h4 show ?thesis by blast
qed

section \<open>Every action is a step of the stored chats\<close>

lemma chat_stepI:
  assumes "chat_id c' = chat_id c" and "kind c' = kind c" and "participants c' = participants c"
    and "unread_user ` set (unreadCounts c) \<subseteq> unread_user ` set (unreadCounts c')"
    and "messages c' = ms @ new" and "list_all2 msg_step (messages c) ms"
    and "list_all is_new new"
  shows "chat_step c c'"
  unfolding chat_step_def using assms by blast

lemma store_stepI:
  assumes "cs' = cs1 @ new" and "list_all2 chat_step cs cs1" and "list_all fresh_chat new"
  shows "store_step cs cs'"
  unfolding store_step_def using assms by blast

lemma msg_step_list_refl: "list_all2 msg_step ms ms"
  by (simp add: list_all2_refl msg_step.same)

lemma chat_step_refl: "chat_step c c"
  by (rule chat_stepI [where ms = "messages c" and new = "[]"])
     (simp_all add: msg_step_list_refl)

lemma chats_step_refl: "list_all2 chat_step cs cs"
  by (simp add: list_all2_refl chat_step_refl)

lemma store_step_refl: "store_step cs cs"
  by (rule store_stepI [where ?cs1.0 = cs and new = "[]"]) (simp_all add: chats_step_refl)

lemma store_step_same_length: "list_all2 chat_step cs cs' \<Longrightarrow> store_step cs cs'"
  by (rule store_stepI [where ?cs1.0 = cs' and new = "[]"]) simp_all

lemma store_step_append: "fresh_chat c \<Longrightarrow> store_step cs (cs @ [c])"
  by (rule store_stepI [where ?cs1.0 = cs and new = "[c]"]) (simp_all add: chats_step_refl)

lemma update_first_rel:
  assumes "\<And>x. P x \<Longrightarrow> R x (f x)" and "\<And>x. R x x"
  shows "list_all2 R xs (update_first P f xs)"
  using assms by (induction xs) (auto simp: list_all2_refl)

lemma store_step_save:
  assumes "findById cs cid = Some c" and "chat_step c c'"
  shows "store_step cs (save c' cs)"
proof -
  have id: "chat_id c' = chat_id c" using assms(2) by (simp add: chat_step_def)
  have "list_all2 chat_step cs (update_first (\<lambda>d. chat_id d = chat_id c') (\<lambda>d. c') cs)"
    using assms(1) unfolding findById_def
  proof (induction cs)
    case Nil
    then show ?case by simp
  next
    case (Cons d ds)
    show ?case
    proof (cases "chat_id d = cid")
      case True
      with Cons.prems have "d = c" by simp
      with True id assms(2) show ?thesis by (simp add: chats_step_refl)
    next
      case False
      with Cons.prems have "find (\<lambda>c. chat_id c = cid) ds = Some c" by simp
      moreover from find_Some_holds [OF this] have "chat_id c = cid" by simp
      ultimately show ?thesis using False id Cons.IH by (simp add: chat_step_refl)
    qed
  qed
  then show ?thesis
    unfolding save_def by (rule store_step_same_length)
qed

lemma chat_step_messages:
  assumes "list_all2 msg_step (messages c) ms"
  shows "chat_step c (c\<lparr>messages := ms\<rparr>)"
  by (rule chat_stepI [where ms = ms and new = "[]"]) (simp_all add: assms)

lemma chat_step_update:
  assumes "\<And>m. msg_step m (f m)"
  shows "chat_step c (c\<lparr>messages := update_first P f (messages c)\<rparr>)"
  by (rule chat_step_messages) (simp add: update_first_rel assms msg_step.same)

lemma unread_users_bump: "unread_user ` set (bump_unread u xs) = unread_user ` set xs"
  unfolding bump_unread_def by (induction xs) auto

lemma is_new_new_message: "is_new (new_message now newId u text files reply)"
  unfolding is_new_def by blast

lemma chat_step_push:
  "chat_step c (c\<lparr>messages := messages c @ [new_message now newId u text files reply],
                  unreadCounts := bump_unread u (unreadCounts c)\<rparr>)"
  by (rule chat_stepI [where ms = "messages c"
        and new = "[new_message now newId u text files reply]"])
     (simp_all add: msg_step_list_refl unread_users_bump is_new_new_message)

lemma unread_users_reset:
  "unread_user ` set (unreadCounts c) \<subseteq> unread_user ` set (unreadCounts (resetUnreadCount c u))"
proof -
  have "unread_user ` set (update_first P (\<lambda>e. e\<lparr>unread_count := 0\<rparr>) xs) = unread_user ` set xs"
    for P and xs :: "unread_entry list"
    by (induction xs) auto
  then show ?thesis
    unfolding resetUnreadCount_def by (auto split: option.splits)
qed

lemma resetUnreadCount_fields:
  "chat_id (resetUnreadCount c u) = chat_id c"
  "kind (resetUnreadCount c u) = kind c"
  "participants (resetUnreadCount c u) = participants c"
  "messages (resetUnreadCount c u) = messages c"
  unfolding resetUnreadCount_def by (simp_all split: option.splits)

lemma chat_step_reset: "chat_step c (resetUnreadCount c u)"
  by (rule chat_stepI [where ms = "messages c" and new = "[]"])
     (simp_all add: resetUnreadCount_fields unread_users_reset msg_step_list_refl)

lemma chat_step_reset_messages:
  assumes "list_all2 msg_step (messages c) ms"
  shows "chat_step c ((resetUnreadCount c u)\<lparr>messages := ms\<rparr>)"
  by (rule chat_stepI [where ms = ms and new = "[]"])
     (simp_all add: resetUnreadCount_fields unread_users_reset assms)

lemma those_map_rel:
  assumes "those (map g xs) = Some ys" and "\<And>x y. g x = Some y \<Longrightarrow> R x y"
  shows "list_all2 R xs ys"
  using assms by (induction xs arbitrary: ys) (auto split: option.splits)

lemma mark_read_step: "mark_read now u m = Some m' \<Longrightarrow> msg_step m m'"
  unfolding mark_read_def
  by (auto split: option.splits bool.splits intro: msg_step.same msg_step.marked_read)

subsection \<open>The requests of the chat routes\<close>

lemma sendMessage_step:
  "store_step cs (stored_fst cs (sendMessage now newId u text files c cs))"
  unfolding sendMessage_def stored_fst_def
  by (auto simp: Let_def store_step_refl split: option.splits
           intro!: store_step_save chat_step_push)

lemma replyToMessage_step:
  "store_step cs (stored_fst cs (replyToMessage now newId u c m text cs))"
  unfolding replyToMessage_def stored_fst_def
  by (auto simp: Let_def store_step_refl split: option.splits
           intro!: store_step_save chat_step_push)

lemma markMessagesAsRead_step:
  "store_step cs (stored cs (markMessagesAsRead now u c cs))"
  unfolding markMessagesAsRead_def stored_def
  by (auto simp: store_step_refl split: option.splits
           intro!: store_step_save chat_step_reset_messages
           elim!: those_map_rel mark_read_step)

lemma deleteMessage_step:
  "store_step cs (stored cs (deleteMessage u c m forEveryone cs))"
  unfolding deleteMessage_def stored_def
  by (auto simp: store_step_refl split: option.splits
           intro!: store_step_save chat_step_update msg_step.tombstoned msg_step.hidden)

lemma addReaction_step:
  "store_step cs (stored cs (addReaction u c m emoji cs))"
  unfolding addReaction_def stored_def
  by (auto simp: store_step_refl split: option.splits
           intro!: store_step_save chat_step_update msg_step.reacted)

lemma removeReaction_step:
  "store_step cs (stored cs (removeReaction u c m cs))"
  unfolding removeReaction_def stored_def
  by (auto simp: store_step_refl split: option.splits
           intro!: store_step_save chat_step_update msg_step.unreacted)

lemma editMessage_step:
  "store_step cs (stored_fst cs (editMessage now u c m text cs))"
  unfolding editMessage_def stored_fst_def
  by (auto simp: store_step_refl split: option.splits
           intro!: store_step_save chat_step_update msg_step.edited_by)

lemma getMessages_step:
  "store_step cs (stored_fst cs (getMessages u c p l cs))"
  unfolding getMessages_def stored_fst_def
  by (auto simp: Let_def store_step_refl split: option.splits
           intro!: store_step_save chat_step_reset)

lemma createDirectChat_step:
  "store_step cs (stored_fst cs (createDirectChat newId us u t cs))"
  unfolding createDirectChat_def stored_fst_def
  by (auto simp: Let_def store_step_refl fresh_chat_def counts_cover_def
           split: option.splits intro!: store_step_append)

lemma counts_cover_group:
  "list_all (\<lambda>p. list_ex (\<lambda>e. unread_user e = p)
               (map (\<lambda>i. \<lparr>unread_user = i, unread_count = 0\<rparr>) ps)) ps"
  by (auto simp: list_all_iff list_ex_iff)

lemma createGroupChat_step:
  "store_step cs (stored_fst cs (createGroupChat newId us u n ps cs))"
  unfolding createGroupChat_def stored_fst_def
  by (auto simp: Let_def store_step_refl fresh_chat_def counts_cover_def counts_cover_group
           split: option.splits bool.splits intro!: store_step_append)

subsection \<open>The events of the socket server\<close>

lemma updateOne_message_step:
  assumes "\<And>m. msg_step m (f m)"
  shows "store_step cs (updateOne_message chatId messageId f cs)"
  unfolding updateOne_message_def
  by (intro store_step_same_length update_first_rel chat_step_update assms chat_step_refl)

lemma participant_users_none:
  "those (map participant_user ps) = Some us \<Longrightarrow> ps = [] \<and> us = []"
  by (cases ps) (simp_all add: participant_user_def)

lemma socket_sendMessage_store:
  "socket_sendMessage now registry u c m cs = cs"
  unfolding socket_sendMessage_def
  by (auto simp: Let_def split: option.splits dest!: participant_users_none)

lemma update_first_twice:
  assumes "\<And>x. P x \<Longrightarrow> P (f x)"
  shows "update_first P g (update_first P f xs) = update_first P (\<lambda>x. g (f x)) xs"
  using assms by (induction xs) auto

lemma updateOne_message_twice:
  assumes "\<And>x. msg_id (f x) = msg_id x"
  shows "updateOne_message c m g (updateOne_message c m f cs)
         = updateOne_message c m (\<lambda>x. g (f x)) cs"
proof -
  have ex: "list_ex (\<lambda>x. msg_id x = m) (update_first (\<lambda>x. msg_id x = m) f ms)
            = list_ex (\<lambda>x. msg_id x = m) ms" for ms
    using assms by (induction ms) auto
  show ?thesis
    unfolding updateOne_message_def
    by (subst update_first_twice) (simp_all add: ex update_first_twice assms)
qed

lemma socket_addReaction_eq:
  "socket_addReaction u c m emoji cs = updateOne_message c m (set_reaction u emoji) cs"
proof -
  have "(\<lambda>x. (drop_reactions u x)\<lparr>reactions :=
            addToSet \<lparr>reaction_user = u, reaction_emoji = emoji\<rparr>
              (reactions (drop_reactions u x))\<rparr>) = set_reaction u emoji"
    by (rule ext) (auto simp: drop_reactions_def set_reaction_def addToSet_def)
  then show ?thesis
    unfolding socket_addReaction_def
    by (subst updateOne_message_twice) (simp_all add: drop_reactions_def)
qed

lemma socket_deleteMessage_step:
  "store_step cs (socket_deleteMessage u c m forEveryone cs)"
  unfolding socket_deleteMessage_def
  by (auto simp: store_step_refl split: option.splits
           intro!: updateOne_message_step msg_step.socket_deleted msg_step.socket_hidden)

theorem step_chats_store_step: "store_step (chats s) (step_chats now newId s a)"
proof (cases a)
  case (SocketSendMessage u c m)
  then show ?thesis by (simp add: socket_sendMessage_store store_step_refl)
next
  case (SocketMessageRead u c m)
  then show ?thesis
    by (simp add: socket_messageRead_def updateOne_message_step msg_step.socket_read)
next
  case (SocketAddReaction u c m emoji)
  then show ?thesis
    by (simp add: socket_addReaction_eq updateOne_message_step msg_step.reacted)
next
  case (SocketRemoveReaction u c m)
  then show ?thesis
    by (simp add: socket_removeReaction_def updateOne_message_step msg_step.unreacted)
qed (simp_all add: sendMessage_step replyToMessage_step markMessagesAsRead_step
       deleteMessage_step addReaction_step removeReaction_step editMessage_step
       getMessages_step createDirectChat_step createGroupChat_step
       socket_deleteMessage_step store_step_refl)

section \<open>Invariants kept by every action\<close>

lemma store_step_messages_all:
  assumes step: "store_step cs cs'"
    and keep: "\<And>m m'. msg_step m m' \<Longrightarrow> Q m \<Longrightarrow> Q m'"
    and new: "\<And>m. is_new m \<Longrightarrow> Q m"
    and inv: "list_all (\<lambda>c. list_all Q (messages c)) cs"
  shows "list_all (\<lambda>c. list_all Q (messages c)) cs'"
proof -
  have msgs: "list_all Q ms'" if "list_all2 msg_step ms ms'" and "list_all Q ms" for ms ms'
    using that by (induction rule: list_all2_induct) (auto intro: keep)
  have chat: "list_all Q (messages c')" if "chat_step c c'" and "list_all Q (messages c)" for c c'
  proof -
    from that(1) obtain ms fresh where "messages c' = ms @ fresh"
      "list_all2 msg_step (messages c) ms" "list_all is_new fresh"
      unfolding chat_step_def by blast
    with that(2) show ?thesis
      using msgs [of "messages c" ms] new by (auto simp: list_all_iff)
  qed
  have chats: "list_all (\<lambda>c. list_all Q (messages c)) ds'"
    if "list_all2 chat_step ds ds'" and "list_all (\<lambda>c. list_all Q (messages c)) ds" for ds ds'
    using that by (induction rule: list_all2_induct) (auto intro: chat)
  from step obtain cs1 fresh where "cs' = cs1 @ fresh" "list_all2 chat_step cs cs1"
    "list_all fresh_chat fresh"
    unfolding store_step_def by blast
  with inv chats [of cs cs1] show ?thesis
    by (auto simp: list_all_iff fresh_chat_def)
qed

lemma store_step_counts_cover:
  assumes step: "store_step cs cs'" and inv: "list_all counts_cover cs"
  shows "list_all counts_cover cs'"
proof -
  have chat: "counts_cover c'" if "chat_step c c'" and "counts_cover c" for c c'
    using that unfolding chat_step_def counts_cover_def list_all_iff list_ex_iff
    by (metis (no_types, lifting) image_iff subsetD)
  have chats: "list_all counts_cover ds'"
    if "list_all2 chat_step ds ds'" and "list_all counts_cover ds" for ds ds'
    using that by (induction rule: list_all2_induct) (auto intro: chat)
  from step obtain cs1 fresh where "cs' = cs1 @ fresh" "list_all2 chat_step cs cs1"
    "list_all fresh_chat fresh"
    unfolding store_step_def by blast
  with inv chats [of cs cs1] show ?thesis
    by (auto simp: list_all_iff fresh_chat_def)
qed

lemma run_counts_cover:
  "list_all counts_cover (chats s) \<Longrightarrow> list_all counts_cover (chats (run s acts))"
proof (induction acts arbitrary: s)
  case Nil
  then show ?case by simp
next
  case (Cons x acts)
  obtain now newId a where x: "x = (now, newId, a)" by (cases x)
  have "store_step (chats s) (step_chats now newId s a)"
    by (rule step_chats_store_step)
  from store_step_counts_cover [OF this Cons.prems]
  have "list_all counts_cover (chats (step now newId s a))"
    by (simp add: step_def)
  then show ?case using Cons.IH x by simp
qed

section \<open>Reactions\<close>

lemma filter_user_others:
  "filter (\<lambda>r. reaction_user r = u) (filter (\<lambda>r. reaction_user r \<noteq> v) rs)
   = (if v = u then [] else filter (\<lambda>r. reaction_user r = u) rs)"
  by (induction rs) auto

lemma reactions_of_set_reaction:
  "reactions_of u (reactions (set_reaction v emoji m)) =
     (if v = u then [\<lparr>reaction_user = u, reaction_emoji = emoji\<rparr>]
      else reactions_of u (reactions m))"
  using filter_user_others [of u v "reactions m"]
  by (simp add: reactions_of_def set_reaction_def)

lemma reactions_of_drop_reactions:
  "reactions_of u (reactions (drop_reactions v m)) =
     (if v = u then [] else reactions_of u (reactions m))"
  using filter_user_others [of u v "reactions m"]
  by (simp add: reactions_of_def drop_reactions_def)

lemma msg_step_single_reaction:
  assumes "msg_step m m'" and "length (reactions_of u (reactions m)) \<le> 1"
  shows "length (reactions_of u (reactions m')) \<le> 1"
  using assms
  by (induction rule: msg_step.induct)
     (simp_all add: reactions_of_set_reaction reactions_of_drop_reactions
        tombstone_def hide_for_def apply_edit_def)

lemma is_new_no_reaction: "is_new m \<Longrightarrow> reactions_of u (reactions m) = []"
  unfolding is_new_def by (auto simp: new_message_def reactions_of_def)

lemma step_single_reaction:
  assumes "single_reaction u (chats s)"
  shows "single_reaction u (chats (step now newId s a))"
proof -
  have "list_all (\<lambda>c. list_all (\<lambda>m. length (reactions_of u (reactions m)) \<le> 1) (messages c))
          (step_chats now newId s a)"
  proof (rule store_step_messages_all [OF step_chats_store_step])
    show "length (reactions_of u (reactions m')) \<le> 1"
      if "msg_step m m'" and "length (reactions_of u (reactions m)) \<le> 1" for m m'
      using that by (rule msg_step_single_reaction)
    show "length (reactions_of u (reactions m)) \<le> 1" if "is_new m" for m
      using that by (simp add: is_new_no_reaction)
    show "list_all (\<lambda>c. list_all (\<lambda>m. length (reactions_of u (reactions m)) \<le> 1) (messages c))
            (chats s)"
      using assms by (simp add: single_reaction_def)
  qed
  then show ?thesis
    by (simp add: single_reaction_def step_def)
qed

lemma run_single_reaction:
  "single_reaction u (chats s) \<Longrightarrow> single_reaction u (chats (run s acts))"
proof (induction acts arbitrary: s)
  case Nil
  then show ?case by simp
next
  case (Cons x acts)
  obtain now newId a where x: "x = (now, newId, a)" by (cases x)
  show ?case using Cons.IH [OF step_single_reaction [OF Cons.prems]] x by simp
qed

lemma message_by_id_update:
  assumes "message_by_id ms mid = Some m" and "\<And>x. msg_id (f x) = msg_id x"
  shows "message_by_id (update_first (\<lambda>x. msg_id x = mid) f ms) mid = Some (f m)"
  using assms unfolding message_by_id_def by (simp add: find_update_first_same)

lemma addReaction_exact:
  assumes "addReaction u chatId messageId emoji cs = Inr cs'"
  shows "\<exists>chat' m. findById cs' chatId = Some chat'
           \<and> message_by_id (messages chat') messageId = Some m
           \<and> reactions_of u (reactions m) = [\<lparr>reaction_user = u, reaction_emoji = emoji\<rparr>]"
proof -
  from assms obtain chat m0 where
    chat: "findById cs chatId = Some chat" and m0: "message_by_id (messages chat) messageId = Some m0"
    and cs': "cs' = save (chat\<lparr>messages :=
                update_first (\<lambda>m. msg_id m = messageId) (set_reaction u emoji) (messages chat)\<rparr>) cs"
    unfolding addReaction_def by (auto split: if_splits option.splits)
  let ?chat' = "chat\<lparr>messages :=
                update_first (\<lambda>m. msg_id m = messageId) (set_reaction u emoji) (messages chat)\<rparr>"
  have "findById cs' chatId = Some ?chat'"
    unfolding cs' using chat by (intro findById_save) (simp_all add: findById_id)
  moreover have "message_by_id (messages ?chat') messageId = Some (set_reaction u emoji m0)"
    using m0 by (simp add: message_by_id_update set_reaction_def)
  ultimately show ?thesis
    using reactions_of_set_reaction [of u u emoji m0] by auto
qed

text \<open>The chat an update of the socket server addresses: the first with that id that
  holds a message with that id.\<close>

lemma updateOne_message_result:
  assumes "find (\<lambda>c. chat_id c = chatId \<and> list_ex (\<lambda>m. msg_id m = messageId) (messages c)) cs
           = Some chat"
    and "\<And>x. msg_id (f x) = msg_id x"
  shows "\<exists>m0. message_by_id (messages chat) messageId = Some m0
         \<and> find (\<lambda>c. chat_id c = chatId \<and> list_ex (\<lambda>m. msg_id m = messageId) (messages c))
             (updateOne_message chatId messageId f cs)
           = Some (chat\<lparr>messages := update_first (\<lambda>m. msg_id m = messageId) f (messages chat)\<rparr>)
         \<and> message_by_id (update_first (\<lambda>m. msg_id m = messageId) f (messages chat)) messageId
           = Some (f m0)"
proof -
  let ?P = "\<lambda>c. chat_id c = chatId \<and> list_ex (\<lambda>m. msg_id m = messageId) (messages c)"
  let ?g = "\<lambda>c. c\<lparr>messages := update_first (\<lambda>m. msg_id m = messageId) f (messages c)\<rparr>"
  have ex: "list_ex (\<lambda>x. msg_id x = messageId) (update_first (\<lambda>x. msg_id x = messageId) f ms)
            = list_ex (\<lambda>x. msg_id x = messageId) ms" for ms
    using assms(2) by (induction ms) auto
  have "?P chat" using find_Some_holds [OF assms(1)] by simp
  then obtain m0 where m0: "message_by_id (messages chat) messageId = Some m0"
    unfolding message_by_id_def by (cases "find (\<lambda>m. msg_id m = messageId) (messages chat)")
      (auto simp: find_None_ex)
  have "find ?P (update_first ?P ?g cs) = map_option ?g (find ?P cs)"
    by (rule find_update_first_same) (simp add: ex)
  with assms(1) have "find ?P (updateOne_message chatId messageId f cs) = Some (?g chat)"
    by (simp add: updateOne_message_def)
  with m0 message_by_id_update [OF m0 assms(2)] show ?thesis by blast
qed

lemma socket_addReaction_exact:
  assumes "find (\<lambda>c. chat_id c = chatId \<and> list_ex (\<lambda>m. msg_id m = messageId) (messages c)) cs
           = Some chat"
  shows "\<exists>chat' m. find (\<lambda>c. chat_id c = chatId \<and> list_ex (\<lambda>m. msg_id m = messageId) (messages c))
                     (socket_addReaction u chatId messageId emoji cs) = Some chat'
           \<and> message_by_id (messages chat') messageId = Some m
           \<and> reactions_of u (reactions m) = [\<lparr>reaction_user = u, reaction_emoji = emoji\<rparr>]"
proof -
  from updateOne_message_result [OF assms, of "set_reaction u emoji"]
  obtain m0 where
    "find (\<lambda>c. chat_id c = chatId \<and> list_ex (\<lambda>m. msg_id m = messageId) (messages c))
       (updateOne_message chatId messageId (set_reaction u emoji) cs)
     = Some (chat\<lparr>messages := update_first (\<lambda>m. msg_id m = messageId) (set_reaction u emoji)
                                 (messages chat)\<rparr>)"
    "message_by_id (update_first (\<lambda>m. msg_id m = messageId) (set_reaction u emoji) (messages chat))
       messageId = Some (set_reaction u emoji m0)"
    by (auto simp: set_reaction_def)
  then show ?thesis
    using reactions_of_set_reaction [of u u emoji m0]
    by (auto simp: socket_addReaction_eq)
qed

text \<open>The definitions a concrete request unfolds to.\<close>

lemmas request_defs =
  sendMessage_def replyToMessage_def markMessagesAsRead_def deleteMessage_def
  addReaction_def removeReaction_def editMessage_def getMessages_def searchMessages_def
  createDirectChat_def createGroupChat_def socket_sendMessage_def socket_messageRead_def
  socket_addReaction_def socket_removeReaction_def socket_deleteMessage_def
  updateOne_message_def findById_def save_def message_by_id_def stored_def stored_fst_def
  step_def new_message_def bump_unread_def set_reaction_def drop_reactions_def tombstone_def
  hide_for_def apply_edit_def addToSet_def content_valid_def query_truthy_def
  resetUnreadCount_def getUnreadCount_def mark_read_def find_user_def findDirectChat_def
  participant_user_def has_def js_blank_def js_space_def toLowerCase_def lower_char_def
  js_slice_def Let_def on_connection_def on_disconnect_def

lemmas demo_defs =
  demo_server_def demo_chat_def demo_message_def demo_chat2_def demo_answer_def

text \<open>
  C4. One reaction per user. If no message of the collection holds more than one reaction
  of user \<open>u\<close> (true of an empty collection and of every new message, whose reaction
  list is empty), then after any run of actions, by any users and through the routes or
  the socket server, no message holds more than one reaction of \<open>u\<close>. And after a
  successful \<open>addReaction\<close> of \<open>u\<close> with an emoji, through the route or through the
  socket event, the reactions of \<open>u\<close> on that message are exactly the one with that
  emoji: a new reaction replaces the previous one.
\<close>

theorem single_reaction_per_user:
  assumes "single_reaction u (chats s)"
  shows "single_reaction u (chats (run s acts))
       \<and> (\<forall>chatId messageId emoji cs'.
            addReaction u chatId messageId emoji (chats (run s acts)) = Inr cs' \<longrightarrow>
            (\<exists>chat' m. findById cs' chatId = Some chat'
               \<and> message_by_id (messages chat') messageId = Some m
               \<and> reactions_of u (reactions m)
                   = [\<lparr>reaction_user = u, reaction_emoji = emoji\<rparr>]))
       \<and> (\<forall>chatId messageId emoji chat.
            find (\<lambda>c. chat_id c = chatId \<and> list_ex (\<lambda>m. msg_id m = messageId) (messages c))
              (chats (run s acts)) = Some chat \<longrightarrow>
            (\<exists>chat' m.
               find (\<lambda>c. chat_id c = chatId \<and> list_ex (\<lambda>m. msg_id m = messageId) (messages c))
                 (socket_addReaction u chatId messageId emoji (chats (run s acts))) = Some chat'
               \<and> message_by_id (messages chat') messageId = Some m
               \<and> reactions_of u (reactions m)
                   = [\<lparr>reaction_user = u, reaction_emoji = emoji\<rparr>]))"
  using run_single_reaction [OF assms] addReaction_exact socket_addReaction_exact
  by (intro conjI allI impI) blast+

theorem single_reaction_per_user_witness:
  "single_reaction 2 (chats demo_server)
   \<and> single_reaction 2 (chats (run demo_server
        [(6, 0, AddReaction 2 10 100 ''thumbs up''),
         (7, 0, SocketAddReaction 2 10 100 ''heart''),
         (8, 0, RemoveReaction 1 10 100),
         (9, 0, AddReaction 2 10 100 ''smile'')]))
   \<and> map (\<lambda>c. map reactions (messages c)) (chats (run demo_server
        [(6, 0, AddReaction 2 10 100 ''thumbs up''),
         (7, 0, SocketAddReaction 2 10 100 ''heart''),
         (8, 0, RemoveReaction 1 10 100),
         (9, 0, AddReaction 2 10 100 ''smile'')]))
      = [[[\<lparr>reaction_user = 2, reaction_emoji = ''smile''\<rparr>]]]"
proof -
  have h: "single_reaction 2 (chats demo_server)"
    by (simp add: single_reaction_def reactions_of_def demo_defs)
  have e: "map (\<lambda>c. map reactions (messages c)) (chats (run demo_server
        [(6, 0, AddReaction 2 10 100 ''thumbs up''),
         (7, 0, SocketAddReaction 2 10 100 ''heart''),
         (8, 0, RemoveReaction 1 10 100),
         (9, 0, AddReaction 2 10 100 ''smile'')]))
      = [[[\<lparr>reaction_user = 2, reaction_emoji = ''smile''\<rparr>]]]"
    by (simp add: request_defs demo_defs)
  from single_reaction_per_user [OF h] h e show ?thesis by blast
qed

section \<open>Notifications\<close>

lemma run_frame:
  "notifications (run s acts) = notifications s \<and> users (run s acts) = users s"
proof (induction acts arbitrary: s)
  case Nil
  then show ?case by simp
next
  case (Cons x acts)
  obtain now newId a where "x = (now, newId, a)" by (cases x)
  with Cons.IH [of "step now newId s a"] show ?case by (simp add: step_def)
qed

text \<open>
  C5, as the code has it. Sending a message inserts no Notification, whether the other
  participants are connected or not: no action of the chat routes or of the socket
  server changes the stored notifications (only \<open>createNotification\<close> inserts one, and
  it is called for task events alone). The unread counter does what the claim says: when
  participant A sends a non-empty text (the request, then the socket event) to a chat in
  which every participant has a counter, and participant B connects afterwards, the
  counter of B is one more than before, hence at least 1 when it was not negative.
\<close>

theorem send_inserts_no_notification:
  assumes found: "findById (chats s) chatId = Some chat"
    and cover: "counts_cover chat"
    and a: "A \<in> set (participants chat)" and b: "B \<in> set (participants chat)" and ab: "B \<noteq> A"
    and nonempty: "text \<noteq> []"
    and nonneg: "0 \<le> getUnreadCount chat B"
  shows "notifications (run s acts) = notifications s
       \<and> (\<exists>chat'.
            findById (chats (run s [(now, newId, SendMessage A chatId text files),
                                    (now, newId', SocketSendMessage A chatId newId),
                                    (later, newId'', Connect B socketId)])) chatId
              = Some chat'
          \<and> getUnreadCount chat' B = getUnreadCount chat B + 1
          \<and> 1 \<le> getUnreadCount chat' B)"
proof
  show "notifications (run s acts) = notifications s"
    by (simp add: run_frame)
next
  let ?chat' = "chat\<lparr>messages := messages chat @ [new_message now newId A text files None],
                     unreadCounts := bump_unread A (unreadCounts chat)\<rparr>"
  have sent: "sendMessage now newId A text files chatId (chats s)
              = Inr (save ?chat' (chats s), new_message now newId A text files None)"
    using found a nonempty by (simp add: sendMessage_def Let_def content_valid_def)
  have "chats (run s [(now, newId, SendMessage A chatId text files),
                      (now, newId', SocketSendMessage A chatId newId),
                      (later, newId'', Connect B socketId)]) = save ?chat' (chats s)"
    by (simp add: step_def sent stored_fst_def socket_sendMessage_store)
  moreover have "findById (save ?chat' (chats s)) chatId = Some ?chat'"
    using found by (intro findById_save) (simp_all add: findById_id)
  moreover obtain e where "find (\<lambda>e. unread_user e = B) (unreadCounts chat) = Some e"
    using counts_cover_entry [OF cover b] by blast
  then have "getUnreadCount ?chat' B = getUnreadCount chat B + 1"
    using ab by (intro getUnreadCount_bump_other)
  ultimately show "\<exists>chat'.
            findById (chats (run s [(now, newId, SendMessage A chatId text files),
                                    (now, newId', SocketSendMessage A chatId newId),
                                    (later, newId'', Connect B socketId)])) chatId
              = Some chat'
          \<and> getUnreadCount chat' B = getUnreadCount chat B + 1
          \<and> 1 \<le> getUnreadCount chat' B"
    using nonneg by auto
qed

theorem send_inserts_no_notification_witness:
  "findById (chats demo_server) 10 = Some demo_chat \<and> counts_cover demo_chat
   \<and> 1 \<in> set (participants demo_chat) \<and> 2 \<in> set (participants demo_chat)
   \<and> \<not> has (userSockets demo_server) 2 \<and> 0 \<le> getUnreadCount demo_chat 2
   \<and> notifications (run demo_server [(6, 101, SendMessage 1 10 ''Hi'' []),
                                      (6, 0, SocketSendMessage 1 10 101),
                                      (9, 0, Connect 2 901)]) = []
   \<and> (\<exists>chat'.
        findById (chats (run demo_server [(6, 101, SendMessage 1 10 ''Hi'' []),
                                          (6, 0, SocketSendMessage 1 10 101),
                                          (9, 0, Connect 2 901)])) 10 = Some chat'
      \<and> getUnreadCount chat' 2 = 4)"
proof -
  have h1: "findById (chats demo_server) 10 = Some demo_chat"
    by (simp add: findById_def demo_defs)
  have h2: "counts_cover demo_chat"
    by (simp add: counts_cover_def demo_defs)
  have h3: "1 \<in> set (participants demo_chat)" and h4: "2 \<in> set (participants demo_chat)"
    by (simp_all add: demo_defs)
  have h5: "(2::nat) \<noteq> 1" and h6: "''Hi'' \<noteq> []" by simp_all
  have c: "getUnreadCount demo_chat 2 = 3"
    by (simp add: getUnreadCount_def demo_defs)
  then have h7: "0 \<le> getUnreadCount demo_chat 2" by simp
  have off: "\<not> has (userSockets demo_server) 2" and n: "notifications demo_server = []"
    by (simp_all add: has_def demo_defs)
  from send_inserts_no_notification [OF h1 h2 h3 h4 h5 h6 h7,
      where acts = "[(6, 101, SendMessage 1 10 ''Hi'' []), (6, 0, SocketSendMessage 1 10 101),
                     (9, 0, Connect 2 901)]"
        and now = 6 and newId = 101 and files = "[]" and newId' = 0 and later = 9
        and newId'' = 0 and socketId = 901]
    h1 h2 h3 h4 h7 off n c
  show ?thesis by auto
qed

text \<open>
  C5, as the claim states it, fails: user 2 is a participant of the chat and is not
  connected; user 1 sends a message (the request and the socket event); afterwards the
  message is stored and the counter of user 2 has gone from 3 to 4, but no Notification
  for user 2, or for anyone, is stored.
\<close>

theorem offline_send_no_notification_counterexample:
  "2 \<in> set (participants demo_chat) \<and> \<not> has (userSockets demo_server) 2
   \<and> map (\<lambda>c. map msg_id (messages c))
       (chats (run demo_server [(6, 101, SendMessage 1 10 ''Hi'' []),
                                (6, 0, SocketSendMessage 1 10 101)])) = [[100, 101]]
   \<and> \<not> list_ex (\<lambda>n. notif_user n = 2)
        (notifications (run demo_server [(6, 101, SendMessage 1 10 ''Hi'' []),
                                         (6, 0, SocketSendMessage 1 10 101)]))
   \<and> \<not> list_ex (\<lambda>n. notif_user n = 2)
        (notifications (run demo_server [(6, 101, SendMessage 1 10 ''Hi'' []),
                                         (6, 0, SocketSendMessage 1 10 101),
                                         (9, 0, Connect 2 901)]))"
  by (simp add: request_defs demo_defs)

section \<open>Listing and searching messages\<close>

lemma set_js_slice: "set (js_slice xs start stop) \<subseteq> set xs"
  unfolding js_slice_def Let_def
  by (meson set_take_subset set_drop_subset subset_trans)

lemma set_js_slice_sorted:
  "set (js_slice (sort_key f (filter P xs)) start stop) \<subseteq> {x \<in> set xs. P x}"
  using set_js_slice [of "sort_key f (filter P xs)" start stop] by simp

text \<open>What \<open>getMessages\<close> returns has no message the requester has deleted for
  themselves, whatever \<open>isDeleted\<close> says, and every returned message is one of the
  chat.\<close>

lemma getMessages_excludes_deleted:
  assumes "getMessages userId chatId parsedPage parsedLimit cs = Inr (cs', page)"
    and "findById cs chatId = Some chat"
  shows "list_all (\<lambda>m. userId \<notin> set (deletedFor m) \<and> m \<in> set (messages chat))
           (page_messages page)
       \<and> totalCount page = length (filter (\<lambda>m. userId \<notin> set (deletedFor m)) (messages chat))"
proof -
  let ?visible = "filter (\<lambda>msg. userId \<notin> set (deletedFor msg)) (messages chat)"
  let ?sorted = "sort_key (\<lambda>m. - createdAt m) ?visible"
  let ?sliced = "case (parsedPage, parsedLimit) of
                   (Some p, Some l) \<Rightarrow> js_slice ?sorted ((p - 1) * l) ((p - 1) * l + l)
                 | _ \<Rightarrow> js_slice ?sorted 0 0"
  from assms have page: "page_messages page = rev ?sliced" "totalCount page = length ?visible"
    unfolding getMessages_def Let_def
    by (auto split: if_splits)
  have "set ?sliced \<subseteq> set ?visible"
    by (simp add: set_js_slice_sorted split: option.splits)
  with page show ?thesis
    by (auto simp: list_all_iff)
qed

text \<open>
  C1. The listing \<open>getMessages\<close> filters on \<open>deletedFor\<close> (lemma
  \<open>getMessages_excludes_deleted\<close>); the search \<open>searchMessages\<close> does not: it reads
  neither the requesting user nor \<open>deletedFor\<close>. User 2 has deleted message 100 for
  themselves, the listing for user 2 is empty, and the search in the same chat for
  \<open>hello\<close> returns the message.
\<close>

theorem searchMessages_ignores_deletedFor:
  "2 \<in> set (participants demo_chat) \<and> 2 \<in> set (deletedFor demo_message)
   \<and> messages demo_chat = [demo_message]
   \<and> searchMessages 10 (Some ''hello'') [demo_chat] = Inr [demo_message]
   \<and> (\<exists>cs'. getMessages 2 10 (Some 1) (Some 50) [demo_chat]
              = Inr (cs', \<lparr>page_messages = [], totalCount = 0\<rparr>))"
  by (simp add: request_defs demo_defs)

section \<open>Sending attachments without text\<close>

text \<open>
  C6. The Created transition happens for a message with text (theorem
  \<open>sendMessage_created\<close>) and not for attachments alone, which the handler means to
  accept: its guard answers 400 only when both the content and the files are missing,
  and it stores \<open>content || ''\<close> with the comment that empty content is allowed if
  there are files. The message schema declares \<open>content\<close> required, which refuses the
  empty string, so \<open>chat.save()\<close> rejects and the handler answers 500. User 1, a
  participant of chat 10, sends one file and no text: the answer is the server error,
  no message is appended and no counter moves. The same request with the text \<open>Hi\<close> is
  stored, with the file, and raises the counter of user 2 from 3 to 4.
\<close>

theorem sendMessage_attachments_only_refused:
  "findById [demo_chat] 10 = Some demo_chat \<and> 1 \<in> set (participants demo_chat)
   \<and> counts_cover demo_chat
   \<and> sendMessage 6 101 1 [] [demo_file] 10 [demo_chat] = Inl ServerError
   \<and> stored_fst [demo_chat] (sendMessage 6 101 1 [] [demo_file] 10 [demo_chat]) = [demo_chat]
   \<and> sendMessage 6 101 1 ''Hi'' [demo_file] 10 [demo_chat]
       = Inr ([demo_chat\<lparr>messages := [demo_message, new_message 6 101 1 ''Hi'' [demo_file] None],
                          unreadCounts := [\<lparr>unread_user = 1, unread_count = 0\<rparr>,
                                           \<lparr>unread_user = 2, unread_count = 4\<rparr>]\<rparr>],
              new_message 6 101 1 ''Hi'' [demo_file] None)"
  by (simp add: request_defs demo_defs counts_cover_def demo_file_def)

section \<open>Who may act on a chat\<close>

text \<open>The handlers that check the participants answer Forbidden to anyone else and
  store nothing.\<close>

lemma participant_checked:
  assumes "findById cs chatId = Some chat" and "userId \<notin> set (participants chat)"
  shows "text = [] \<and> files = [] \<or> sendMessage now newId userId text files chatId cs = Inl Forbidden"
    and "emoji = [] \<or> addReaction userId chatId messageId emoji cs = Inl Forbidden"
    and "markMessagesAsRead now userId chatId cs = Inl Forbidden"
    and "getMessages userId chatId parsedPage parsedLimit cs = Inl Forbidden"
  using assms
  by (simp_all add: sendMessage_def addReaction_def markMessagesAsRead_def getMessages_def)

text \<open>The edit is reserved to the sender of the message.\<close>

lemma editMessage_sender_only:
  assumes "findById cs chatId = Some chat"
    and "message_by_id (messages chat) messageId = Some m" and "sender m \<noteq> userId"
  shows "editMessage now userId chatId messageId text cs = Inl Forbidden"
  using assms by (simp add: editMessage_def)

text \<open>
  C2. \<open>replyToMessage\<close>, \<open>removeReaction\<close> and \<open>deleteMessage\<close> for oneself have no
  participant check. User 3 is no participant of chat 10: their reply is accepted and
  stored, and the unread counters of both participants go up; their removal of a
  reaction is answered with success; their deletion for themselves is stored in
  \<open>deletedFor\<close> of the message. The sibling \<open>sendMessage\<close> refuses the same user.
\<close>

theorem non_participant_accepted:
  "3 \<notin> set (participants demo_chat)
   \<and> sendMessage 6 101 3 ''yo'' [] 10 [demo_chat] = Inl Forbidden
   \<and> replyToMessage 6 101 3 10 100 ''yo'' [demo_chat]
       = Inr ([demo_chat\<lparr>messages := [demo_message, new_message 6 101 3 ''yo'' [] (Some 100)],
                          unreadCounts := [\<lparr>unread_user = 1, unread_count = 1\<rparr>,
                                           \<lparr>unread_user = 2, unread_count = 4\<rparr>]\<rparr>],
              new_message 6 101 3 ''yo'' [] (Some 100))
   \<and> removeReaction 3 10 100 [demo_chat] = Inr [demo_chat]
   \<and> deleteMessage 3 10 100 None [demo_chat]
       = Inr [demo_chat\<lparr>messages := [demo_message\<lparr>deletedFor := [2, 3]\<rparr>]\<rparr>]"
  by (simp add: request_defs demo_defs)

section \<open>Deleting a message for everyone\<close>

lemma save_twice: "save c (save c cs) = save c cs"
  unfolding save_def by (simp add: update_first_twice)

lemma tombstone_twice: "tombstone (tombstone m) = tombstone m"
  by (simp add: tombstone_def)

lemma msg_id_tombstone: "msg_id (tombstone m) = msg_id m"
  by (simp add: tombstone_def)

lemma deleteMessage_everyone_Inr:
  assumes "query_truthy forEveryone" and "deleteMessage u c m forEveryone cs = Inr cs'"
  shows "\<exists>chat msg. findById cs c = Some chat \<and> message_by_id (messages chat) m = Some msg
           \<and> sender msg = u
           \<and> cs' = save (chat\<lparr>messages :=
                       update_first (\<lambda>x. msg_id x = m) tombstone (messages chat)\<rparr>) cs"
  using assms unfolding deleteMessage_def
  by (auto split: option.splits if_splits)

text \<open>The route: after the sender deletes for everyone, the stored message is the
  tombstone, whatever its content and attachments were.\<close>

lemma deleteMessage_for_everyone:
  assumes "query_truthy forEveryone" and "deleteMessage u c m forEveryone cs = Inr cs'"
  shows "\<exists>chat' msg. findById cs' c = Some chat' \<and> message_by_id (messages chat') m = Some msg
           \<and> sender msg = u \<and> isDeleted msg \<and> content msg = placeholder \<and> attachments msg = []"
proof -
  from deleteMessage_everyone_Inr [OF assms] obtain chat msg where
    chat: "findById cs c = Some chat" and msg: "message_by_id (messages chat) m = Some msg"
    and sender: "sender msg = u"
    and cs': "cs' = save (chat\<lparr>messages :=
                update_first (\<lambda>x. msg_id x = m) tombstone (messages chat)\<rparr>) cs"
    by blast
  let ?chat' = "chat\<lparr>messages := update_first (\<lambda>x. msg_id x = m) tombstone (messages chat)\<rparr>"
  have "findById cs' c = Some ?chat'"
    unfolding cs' using chat by (intro findById_save) (simp_all add: findById_id)
  moreover have "message_by_id (messages ?chat') m = Some (tombstone msg)"
    using msg by (simp add: message_by_id_update tombstone_def)
  ultimately show ?thesis
    using sender by (auto simp: tombstone_def)
qed

text \<open>The route is idempotent: the same request again succeeds and stores the same
  collection.\<close>

lemma deleteMessage_idempotent:
  assumes "query_truthy forEveryone" and "deleteMessage u c m forEveryone cs = Inr cs'"
  shows "deleteMessage u c m forEveryone cs' = Inr cs'"
proof -
  from deleteMessage_everyone_Inr [OF assms] obtain chat msg where
    chat: "findById cs c = Some chat" and msg: "message_by_id (messages chat) m = Some msg"
    and sender: "sender msg = u"
    and cs': "cs' = save (chat\<lparr>messages :=
                update_first (\<lambda>x. msg_id x = m) tombstone (messages chat)\<rparr>) cs"
    by blast
  let ?chat' = "chat\<lparr>messages := update_first (\<lambda>x. msg_id x = m) tombstone (messages chat)\<rparr>"
  have 1: "findById cs' c = Some ?chat'"
    unfolding cs' using chat by (intro findById_save) (simp_all add: findById_id)
  have 2: "message_by_id (messages ?chat') m = Some (tombstone msg)"
    using msg by (simp add: message_by_id_update tombstone_def)
  have 3: "sender (tombstone msg) = u"
    using sender by (simp add: tombstone_def)
  have 4: "?chat'\<lparr>messages := update_first (\<lambda>x. msg_id x = m) tombstone (messages ?chat')\<rparr> = ?chat'"
    by (simp add: update_first_twice tombstone_twice msg_id_tombstone)
  have "deleteMessage u c m forEveryone cs' = Inr (save ?chat' cs')"
    using assms(1) 1 2 3 4 by (simp add: deleteMessage_def)
  then show ?thesis
    by (simp add: cs' save_twice)
qed

text \<open>The route refuses anyone but the sender and stores nothing.\<close>

lemma deleteMessage_not_sender:
  assumes "query_truthy forEveryone" and "findById cs c = Some chat"
    and "message_by_id (messages chat) m = Some msg" and "sender msg \<noteq> u"
  shows "deleteMessage u c m forEveryone cs = Inl Forbidden"
  using assms by (simp add: deleteMessage_def)

text \<open>
  C3. The route \<open>deleteMessage\<close> does what the claim says (lemmas
  \<open>deleteMessage_for_everyone\<close>, \<open>deleteMessage_idempotent\<close>,
  \<open>deleteMessage_not_sender\<close>). The socket event \<open>deleteMessage\<close> does not. User 1,
  the sender of message 100, deletes it for everyone through the socket: \<open>isDeleted\<close> is
  set, the content is still \<open>Hello\<close> and not the placeholder. And user 2, who did not
  send message 100 but sent message 101 of the same chat, passes the guard of the socket
  event and deletes message 100 for everyone, where the route answers Forbidden.
\<close>

theorem socket_deleteMessage_keeps_content:
  "sender demo_message = 1
   \<and> socket_deleteMessage 1 10 100 True [demo_chat]
       = [demo_chat\<lparr>messages := [demo_message\<lparr>isDeleted := True\<rparr>]\<rparr>]
   \<and> content (demo_message\<lparr>isDeleted := True\<rparr>) = ''Hello'' \<and> ''Hello'' \<noteq> placeholder
   \<and> deleteMessage 1 10 100 (Some ''true'') [demo_chat]
       = Inr [demo_chat\<lparr>messages := [tombstone demo_message]\<rparr>]
   \<and> sender demo_message \<noteq> 2
   \<and> socket_deleteMessage 2 10 100 True [demo_chat2]
       = [demo_chat2\<lparr>messages := [demo_message\<lparr>isDeleted := True\<rparr>, demo_answer]\<rparr>]
   \<and> deleteMessage 2 10 100 (Some ''true'') [demo_chat2] = Inl Forbidden"
  by (simp add: request_defs demo_defs placeholder_def)

section \<open>Read receipts\<close>

lemma msg_step_reader:
  assumes "msg_step m m'"
  shows "msg_id m' = msg_id m \<and> (reader_of u m \<longrightarrow> reader_of u m')"
  using assms
  by (induction rule: msg_step.induct)
     (auto simp: reader_of_def tombstone_def hide_for_def set_reaction_def drop_reactions_def
        apply_edit_def addToSet_def list_ex_iff)

lemma list_all2_ex:
  assumes "list_all2 R xs ys" and "list_ex P xs" and "\<And>x y. R x y \<Longrightarrow> P x \<Longrightarrow> Q y"
  shows "list_ex Q ys"
  using assms by (induction rule: list_all2_induct) auto

lemma chat_step_reader:
  assumes "chat_step c c'"
    and "chat_id c = chatId \<and> list_ex (\<lambda>m. msg_id m = messageId \<and> reader_of u m) (messages c)"
  shows "chat_id c' = chatId \<and> list_ex (\<lambda>m. msg_id m = messageId \<and> reader_of u m) (messages c')"
proof -
  from assms(1) obtain ms fresh where id: "chat_id c' = chat_id c"
    and ms: "messages c' = ms @ fresh" "list_all2 msg_step (messages c) ms"
    unfolding chat_step_def by blast
  from assms(2) have ex: "list_ex (\<lambda>m. msg_id m = messageId \<and> reader_of u m) (messages c)"
    by simp
  have "list_ex (\<lambda>m. msg_id m = messageId \<and> reader_of u m) ms"
  proof (rule list_all2_ex [OF ms(2) ex])
    fix x y
    assume "msg_step x y" and "msg_id x = messageId \<and> reader_of u x"
    then show "msg_id y = messageId \<and> reader_of u y"
      using msg_step_reader [of x y u] by simp
  qed
  with id ms(1) assms(2) show ?thesis by (auto simp: list_ex_iff)
qed

lemma store_step_read_by:
  assumes "store_step cs cs'" and "read_by cs chatId messageId u"
  shows "read_by cs' chatId messageId u"
proof -
  from assms(1) obtain cs1 fresh where cs': "cs' = cs1 @ fresh" and rel: "list_all2 chat_step cs cs1"
    unfolding store_step_def by blast
  from assms(2) have ex: "list_ex (\<lambda>c. chat_id c = chatId
          \<and> list_ex (\<lambda>m. msg_id m = messageId \<and> reader_of u m) (messages c)) cs"
    by (simp add: read_by_def)
  have "list_ex (\<lambda>c. chat_id c = chatId
          \<and> list_ex (\<lambda>m. msg_id m = messageId \<and> reader_of u m) (messages c)) cs1"
    by (rule list_all2_ex [OF rel ex]) (rule chat_step_reader)
  then show ?thesis
    unfolding read_by_def cs' by (auto simp: list_ex_iff)
qed

text \<open>Monotonic: once user \<open>u\<close> is in \<open>readBy\<close> of a message, no run of actions takes
  them out.\<close>

lemma run_read_by:
  "read_by (chats s) chatId messageId u \<Longrightarrow> read_by (chats (run s acts)) chatId messageId u"
proof (induction acts arbitrary: s)
  case Nil
  then show ?case by simp
next
  case (Cons x acts)
  obtain now newId a where x: "x = (now, newId, a)" by (cases x)
  have "read_by (chats (step now newId s a)) chatId messageId u"
    using store_step_read_by [OF step_chats_store_step Cons.prems] by (simp add: step_def)
  from Cons.IH [OF this] x show ?case by simp
qed

text \<open>The route \<open>markMessagesAsRead\<close> leaves a message alone that the user has read.\<close>

lemma readBy_some_reader: "reader_of u m \<Longrightarrow> readBy_some (readBy m) u \<noteq> Some False"
proof -
  have "list_ex (\<lambda>r. read_user r = Some u) rs \<Longrightarrow> readBy_some rs u \<noteq> Some False" for rs
    by (induction rs) (auto split: option.splits)
  then show "reader_of u m \<Longrightarrow> readBy_some (readBy m) u \<noteq> Some False"
    by (simp add: reader_of_def)
qed

lemma mark_read_already:
  assumes "reader_of u m" and "mark_read now u m = Some m'"
  shows "m' = m"
  using assms readBy_some_reader [of u m]
  by (auto simp: mark_read_def split: option.splits bool.splits)

lemma readBy_some_append:
  "readBy_some rs u = Some False \<Longrightarrow>
   readBy_some (rs @ [\<lparr>read_user = Some u, readAt = now\<rparr>]) u = Some True"
  by (induction rs) (auto split: option.splits if_splits)

lemma mark_read_fixed:
  assumes "mark_read now u m = Some m'"
  shows "mark_read later u m' = Some m'"
  using assms
  by (auto simp: mark_read_def readBy_some_append split: option.splits bool.splits)

lemma those_map_fixed:
  assumes "those (map g xs) = Some ys" and "\<And>x y. g x = Some y \<Longrightarrow> h y = Some y"
  shows "those (map h ys) = Some ys"
  using assms by (induction xs arbitrary: ys) (auto split: option.splits)

lemma update_first_append_new:
  "find P xs = None \<Longrightarrow> update_first P f (xs @ [y]) = xs @ [if P y then f y else y]"
  by (induction xs) (auto split: if_splits)

lemma resetUnreadCount_twice:
  "resetUnreadCount (resetUnreadCount c u) u = resetUnreadCount c u"
proof (cases "find (\<lambda>e. unread_user e = u) (unreadCounts c)")
  case None
  then show ?thesis
    by (simp add: resetUnreadCount_def find_append update_first_append_new)
next
  case (Some e)
  then show ?thesis
    by (simp add: resetUnreadCount_def find_update_first_same update_first_twice)
qed

lemma resetUnreadCount_messages:
  "resetUnreadCount (c\<lparr>messages := ms\<rparr>) u = (resetUnreadCount c u)\<lparr>messages := ms\<rparr>"
  by (simp add: resetUnreadCount_def split: option.splits)

text \<open>The route is idempotent: a second \<open>markMessagesAsRead\<close> of the same user, at any
  later time, stores the same collection.\<close>

lemma markMessagesAsRead_idempotent:
  assumes "markMessagesAsRead now u c cs = Inr cs'"
  shows "markMessagesAsRead later u c cs' = Inr cs'"
proof -
  from assms obtain chat ms where
    chat: "findById cs c = Some chat" and part: "u \<in> set (participants chat)"
    and ms: "those (map (mark_read now u) (messages chat)) = Some ms"
    and cs': "cs' = save ((resetUnreadCount chat u)\<lparr>messages := ms\<rparr>) cs"
    unfolding markMessagesAsRead_def by (auto split: option.splits if_splits)
  let ?chat' = "(resetUnreadCount chat u)\<lparr>messages := ms\<rparr>"
  have 1: "findById cs' c = Some ?chat'"
    unfolding cs' using chat
    by (intro findById_save) (simp_all add: findById_id resetUnreadCount_fields)
  have 2: "u \<in> set (participants ?chat')"
    using part by (simp add: resetUnreadCount_fields)
  have 3: "those (map (mark_read later u) (messages ?chat')) = Some ms"
    using those_map_fixed [OF ms] mark_read_fixed by simp
  have 4: "(resetUnreadCount ?chat' u)\<lparr>messages := ms\<rparr> = ?chat'"
    by (simp add: resetUnreadCount_messages resetUnreadCount_twice)
  have "markMessagesAsRead later u c cs' = Inr (save ?chat' cs')"
    using 1 2 3 4 by (simp add: markMessagesAsRead_def)
  then show ?thesis
    by (simp add: cs' save_twice)
qed

text \<open>
  C7. Monotonic holds on every path (lemma \<open>run_read_by\<close>), and the route is idempotent
  (lemmas \<open>mark_read_already\<close>, \<open>markMessagesAsRead_idempotent\<close>). The socket event
  \<open>messageRead\<close> is not: user 1 is in \<open>readBy\<close> of message 100 (as its sender) and
  marks it read through the socket; the message gains a second \<open>readBy\<close> entry, and a
  third when the event is repeated a moment later. The \<open>$addToSet\<close> of the event adds a
  value without the field \<open>user\<close>, with a fresh \<open>readAt\<close> and an \<open>_id\<close> of its own,
  which equals no entry already stored.
\<close>

theorem socket_messageRead_not_idempotent:
  "reader_of 1 demo_message
   \<and> readBy demo_message = [\<lparr>read_user = Some 1, readAt = 5\<rparr>]
   \<and> socket_messageRead 7 10 100 1 [demo_chat]
       = [demo_chat\<lparr>messages := [demo_message\<lparr>readBy :=
            [\<lparr>read_user = Some 1, readAt = 5\<rparr>, \<lparr>read_user = None, readAt = 7\<rparr>]\<rparr>]\<rparr>]
   \<and> socket_messageRead 7 10 100 1 [demo_chat] \<noteq> [demo_chat]
   \<and> socket_messageRead 8 10 100 1 (socket_messageRead 7 10 100 1 [demo_chat])
       = [demo_chat\<lparr>messages := [demo_message\<lparr>readBy :=
            [\<lparr>read_user = Some 1, readAt = 5\<rparr>, \<lparr>read_user = None, readAt = 7\<rparr>,
             \<lparr>read_user = None, readAt = 8\<rparr>]\<rparr>]\<rparr>]
   \<and> markMessagesAsRead 7 1 10 [demo_chat] = Inr [demo_chat]"
  by (simp add: request_defs demo_defs reader_of_def)

section \<open>Direct chats\<close>

lemma createDirectChat_cases:
  assumes "createDirectChat newId us u t cs = Inr (cs', status, c)"
  shows "(findDirectChat cs u t = Some c \<and> cs' = cs \<and> status = OK200)
       \<or> (findDirectChat cs u t = None \<and> cs' = cs @ [c] \<and> status = Created201
          \<and> kind c = Direct \<and> participants c = [u, t] \<and> messages c = [])"
  using assms unfolding createDirectChat_def
  by (auto simp: Let_def split: option.splits if_splits)

text \<open>A request for a pair that has a direct chat returns that chat and stores nothing;
  the chat returned is direct, has two participants and both users are among them.\<close>

lemma createDirectChat_returns:
  assumes "createDirectChat newId us u t cs = Inr (cs', status, c)"
  shows "kind c = Direct \<and> length (participants c) = 2
       \<and> u \<in> set (participants c) \<and> t \<in> set (participants c)
       \<and> (findDirectChat cs u t \<noteq> None \<longrightarrow> findDirectChat cs u t = Some c \<and> cs' = cs)"
proof -
  have "kind c = Direct \<and> length (participants c) = 2
       \<and> u \<in> set (participants c) \<and> t \<in> set (participants c)"
    if "findDirectChat cs u t = Some c"
    using find_Some_holds [OF that [unfolded findDirectChat_def]] by simp
  with createDirectChat_cases [OF assms] show ?thesis by auto
qed

lemma direct_pairs_same:
  assumes "list_all2 chat_step cs cs'"
  shows "direct_pairs cs' = direct_pairs cs"
  using assms unfolding direct_pairs_def
  by (induction rule: list_all2_induct) (auto simp: chat_step_def)

lemma findDirectChat_None_pair:
  assumes "findDirectChat cs u t = None"
  shows "{u, t} \<notin> set (direct_pairs cs)"
proof
  assume "{u, t} \<in> set (direct_pairs cs)"
  then have "\<exists>c \<in> set cs. kind c = Direct \<and> length (participants c) = 2
      \<and> set (participants c) = {u, t}"
    unfolding direct_pairs_def by (simp add: image_iff) blast
  then have "list_ex (\<lambda>c. kind c = Direct \<and> u \<in> set (participants c)
      \<and> t \<in> set (participants c) \<and> length (participants c) = 2) cs"
    unfolding list_ex_iff by blast
  with assms show False
    by (simp add: findDirectChat_def find_None_ex)
qed

lemma createDirectChat_unique:
  assumes "distinct (direct_pairs cs)"
  shows "distinct (direct_pairs (stored_fst cs (createDirectChat newId us u t cs)))"
proof (cases "createDirectChat newId us u t cs")
  case (Inl e)
  with assms show ?thesis by (simp add: stored_fst_def)
next
  case (Inr r)
  obtain cs' status c where r: "r = (cs', status, c)" by (cases r)
  from createDirectChat_cases [OF Inr [unfolded r]] assms show ?thesis
    using findDirectChat_None_pair [of cs u t]
    by (auto simp: Inr r stored_fst_def direct_pairs_def)
qed

lemma createGroupChat_pairs:
  "direct_pairs (stored_fst cs (createGroupChat newId us u n ps cs)) = direct_pairs cs"
  unfolding createGroupChat_def stored_fst_def
  by (auto simp: Let_def direct_pairs_def split: option.splits bool.splits)

lemma update_first_same_length: "length (update_first P f xs) = length xs"
  by (induction xs) simp_all

lemma store_step_same_chats:
  assumes "store_step cs cs'" and "length cs' = length cs"
  shows "list_all2 chat_step cs cs'"
proof -
  from assms(1) obtain cs1 fresh where "cs' = cs1 @ fresh" "list_all2 chat_step cs cs1"
    unfolding store_step_def by blast
  moreover from this have "length cs1 = length cs" by (simp add: list_all2_lengthD)
  ultimately show ?thesis using assms(2) by simp
qed

lemma save_length: "length (save c cs) = length cs"
  by (simp add: save_def update_first_same_length)

lemma updateOne_message_length: "length (updateOne_message c m f cs) = length cs"
  by (simp add: updateOne_message_def update_first_same_length)

lemma request_lengths:
  "length (stored_fst cs (sendMessage now newId u body files c cs)) = length cs"
  "length (stored_fst cs (replyToMessage now newId u c m body cs)) = length cs"
  "length (stored cs (markMessagesAsRead now u c cs)) = length cs"
  "length (stored cs (deleteMessage u c m forEveryone cs)) = length cs"
  "length (stored cs (addReaction u c m emoji cs)) = length cs"
  "length (stored cs (removeReaction u c m cs)) = length cs"
  "length (stored_fst cs (editMessage now u c m body cs)) = length cs"
  "length (stored_fst cs (getMessages u c p l cs)) = length cs"
  by (simp_all add: sendMessage_def replyToMessage_def markMessagesAsRead_def
        deleteMessage_def addReaction_def removeReaction_def editMessage_def getMessages_def
        stored_def stored_fst_def save_length Let_def
      split: option.splits)

lemma event_lengths:
  "length (socket_messageRead now c m u cs) = length cs"
  "length (socket_addReaction u c m emoji cs) = length cs"
  "length (socket_removeReaction u c m cs) = length cs"
  "length (socket_deleteMessage u c m forEveryone cs) = length cs"
  by (simp_all add: socket_messageRead_def socket_addReaction_def socket_removeReaction_def
        socket_deleteMessage_def updateOne_message_length
      split: option.splits)

lemma step_chats_length:
  assumes "\<And>u t. a \<noteq> CreateDirectChat u t" and "\<And>u n ps. a \<noteq> CreateGroupChat u n ps"
  shows "length (step_chats now newId s a) = length (chats s)"
proof (cases a)
  case (CreateDirectChat u t)
  with assms(1) [of u t] show ?thesis by blast
next
  case (CreateGroupChat u n ps)
  with assms(2) [of u n ps] show ?thesis by blast
qed (simp_all add: request_lengths event_lengths socket_sendMessage_store)

lemma step_direct_unique:
  assumes "distinct (direct_pairs (chats s))"
  shows "distinct (direct_pairs (chats (step now newId s a)))"
proof (cases "(\<exists>u t. a = CreateDirectChat u t) \<or> (\<exists>u n ps. a = CreateGroupChat u n ps)")
  case True
  with assms show ?thesis
    by (auto simp: step_def createDirectChat_unique createGroupChat_pairs)
next
  case False
  then have "length (step_chats now newId s a) = length (chats s)"
    by (intro step_chats_length) auto
  with step_chats_store_step have "list_all2 chat_step (chats s) (step_chats now newId s a)"
    by (rule store_step_same_chats)
  with assms show ?thesis
    by (simp add: step_def direct_pairs_same)
qed

text \<open>At most one direct chat per pair of users: no run of actions stores a second
  direct chat of two participants with the same participant set.\<close>

lemma run_direct_unique:
  "distinct (direct_pairs (chats s)) \<Longrightarrow> distinct (direct_pairs (chats (run s acts)))"
proof (induction acts arbitrary: s)
  case Nil
  then show ?case by simp
next
  case (Cons x acts)
  obtain now newId a where x: "x = (now, newId, a)" by (cases x)
  from Cons.IH [OF step_direct_unique [OF Cons.prems]] x show ?case by simp
qed

text \<open>The three invariants hold of every collection the actions build from an empty
  one.\<close>

lemma run_from_empty:
  assumes "chats s = []"
  shows "list_all counts_cover (chats (run s acts))"
    and "single_reaction u (chats (run s acts))"
    and "distinct (direct_pairs (chats (run s acts)))"
proof -
  from assms have a: "list_all counts_cover (chats s)" and b: "single_reaction u (chats s)"
    and c: "distinct (direct_pairs (chats s))"
    by (simp_all add: single_reaction_def direct_pairs_def)
  from a show "list_all counts_cover (chats (run s acts))" by (rule run_counts_cover)
  from b show "single_reaction u (chats (run s acts))" by (rule run_single_reaction)
  from c show "distinct (direct_pairs (chats (run s acts)))" by (rule run_direct_unique)
qed

text \<open>
  C8. A direct chat has two participants and a pair of users gets at most one (lemmas
  \<open>createDirectChat_returns\<close>, \<open>run_direct_unique\<close>), but the two need not be
  distinct: \<open>createDirectChat\<close> does not compare the target with the requester. User 1
  asks for a direct chat with user 1; with no chat stored, a direct chat with the
  participants 1 and 1 is created. And user 2 asks for a direct chat with user 2 while
  the direct chat of users 1 and 2 is stored: \<open>findDirectChat\<close> matches it (size 2, holds
  user 2) and it is returned as the existing chat of the pair.
\<close>

theorem createDirectChat_with_oneself:
  "createDirectChat 11 (users demo_server) 1 1 []
     = Inr ([\<lparr>chat_id = 11, kind = Direct, participants = [1, 1], messages = [],
               chat_name = [], admins = [],
               unreadCounts = [\<lparr>unread_user = 1, unread_count = 0\<rparr>,
                               \<lparr>unread_user = 1, unread_count = 0\<rparr>]\<rparr>],
            Created201,
            \<lparr>chat_id = 11, kind = Direct, participants = [1, 1], messages = [],
              chat_name = [], admins = [],
              unreadCounts = [\<lparr>unread_user = 1, unread_count = 0\<rparr>,
                              \<lparr>unread_user = 1, unread_count = 0\<rparr>]\<rparr>)
   \<and> \<not> distinct [1, 1 :: oid]
   \<and> participants demo_chat = [1, 2]
   \<and> createDirectChat 11 (users demo_server) 2 2 [demo_chat] = Inr ([demo_chat], OK200, demo_chat)"
  by (simp add: request_defs demo_defs)

end
